theory Spec2Isabelle
  imports Main "HOL-Library.Sublist" "HOL-Library.Multiset"
begin

section \<open>Values of the upstream service and the Python operations used on them\<close>

text \<open>
  The export tool works on parsed JSON bodies. A value is \<open>None\<close>, a boolean, an
  integer, a string, a list or a dictionary; a dictionary is an association list in
  insertion order whose lookups take the first binding of a key (a parsed body binds each
  key once). Floating-point numbers are not part of the model, and a character is one of
  the code points 0 to 255.
\<close>

datatype json =
    JNull
  | JBool bool
  | JInt int
  | JStr string
  | JList "json list"
  | JDict "(string \<times> json) list"

datatype error = TypeError | AttributeError | KeyError

definition and_then :: "error + 'a \<Rightarrow> ('a \<Rightarrow> error + 'b) \<Rightarrow> error + 'b" where
  "and_then m f = (case m of Inl e \<Rightarrow> Inl e | Inr x \<Rightarrow> f x)"

text \<open>Truth value of a value in a condition (\<open>if x\<close>, \<open>not x\<close>, \<open>x and y\<close>).\<close>

fun truthy :: "json \<Rightarrow> bool" where
  "truthy JNull = False"
| "truthy (JBool b) = b"
| "truthy (JInt i) = (i \<noteq> 0)"
| "truthy (JStr s) = (s \<noteq> [])"
| "truthy (JList xs) = (xs \<noteq> [])"
| "truthy (JDict kvs) = (kvs \<noteq> [])"

text \<open>\<open>a or b\<close>: the first operand when it is true, the second otherwise.\<close>

definition py_or :: "json \<Rightarrow> json \<Rightarrow> json" where
  "py_or a b = (if truthy a then a else b)"

subsection \<open>\<open>str\<close> and \<open>repr\<close>\<close>

fun str_nat :: "nat \<Rightarrow> string" where
  "str_nat n = (if n < 10 then [''0123456789'' ! n]
                else str_nat (n div 10) @ [''0123456789'' ! (n mod 10)])"

declare str_nat.simps [simp del]

definition str_int :: "int \<Rightarrow> string" where
  "str_int i = (if i < 0 then CHR ''-'' # str_nat (nat (- i)) else str_nat (nat i))"

definition hex2 :: "nat \<Rightarrow> string" where
  "hex2 n = [''0123456789abcdef'' ! (n div 16), ''0123456789abcdef'' ! (n mod 16)]"

definition is_printable :: "char \<Rightarrow> bool" where
  "is_printable c =
     (let n = (of_char c :: nat) in (32 \<le> n \<and> n < 127) \<or> (161 \<le> n \<and> n \<noteq> 173))"

definition repr_char :: "char \<Rightarrow> char \<Rightarrow> string" where
  "repr_char q c =
     (if c = q \<or> c = CHR 0x5C then [CHR 0x5C, c]
      else if c = CHR 0x09 then [CHR 0x5C, CHR ''t'']
      else if c = CHR 0x0A then [CHR 0x5C, CHR ''n'']
      else if c = CHR 0x0D then [CHR 0x5C, CHR ''r'']
      else if is_printable c then [c]
      else [CHR 0x5C, CHR ''x''] @ hex2 (of_char c))"

definition repr_str :: "string \<Rightarrow> string" where
  "repr_str s =
     (let q = (if CHR 0x27 \<in> set s \<and> CHR 0x22 \<notin> set s then CHR 0x22 else CHR 0x27)
      in q # concat (map (repr_char q) s) @ [q])"

text \<open>\<open>sep.join(parts)\<close> for parts that are strings.\<close>

fun join :: "string \<Rightarrow> string list \<Rightarrow> string" where
  "join sep [] = []"
| "join sep [x] = x"
| "join sep (x # y # ys) = x @ sep @ join sep (y # ys)"

fun py_repr :: "json \<Rightarrow> string" where
  "py_repr JNull = ''None''"
| "py_repr (JBool b) = (if b then ''True'' else ''False'')"
| "py_repr (JInt i) = str_int i"
| "py_repr (JStr s) = repr_str s"
| "py_repr (JList xs) = ''['' @ join '', '' (map py_repr xs) @ '']''"
| "py_repr (JDict kvs) =
     ''{'' @ join '', '' (map (\<lambda>kv. repr_str (fst kv) @ '': '' @ py_repr (snd kv)) kvs) @ ''}''"

text \<open>\<open>str(x)\<close>, also what an f-string writes for \<open>{x}\<close>.\<close>

fun py_str :: "json \<Rightarrow> string" where
  "py_str (JStr s) = s"
| "py_str JNull = ''None''"
| "py_str (JBool b) = (if b then ''True'' else ''False'')"
| "py_str (JInt i) = str_int i"
| "py_str (JList xs) = py_repr (JList xs)"
| "py_str (JDict kvs) = py_repr (JDict kvs)"

subsection \<open>String methods\<close>

definition is_space :: "char \<Rightarrow> bool" where
  "is_space c =
     (let n = (of_char c :: nat)
      in (9 \<le> n \<and> n \<le> 13) \<or> (28 \<le> n \<and> n \<le> 32) \<or> n = 133 \<or> n = 160)"

definition strip :: "string \<Rightarrow> string" where
  "strip s = rev (dropWhile is_space (rev (dropWhile is_space s)))"

definition is_digit_char :: "char \<Rightarrow> bool" where
  "is_digit_char c =
     (let n = (of_char c :: nat) in (48 \<le> n \<and> n \<le> 57) \<or> n = 178 \<or> n = 179 \<or> n = 185)"

definition isdigit :: "string \<Rightarrow> bool" where
  "isdigit s = (s \<noteq> [] \<and> list_all is_digit_char s)"

definition startswith :: "string \<Rightarrow> string \<Rightarrow> bool" where
  "startswith s p = (take (length p) s = p)"

text \<open>\<open>a in b\<close> for two strings: \<open>a\<close> occurs in \<open>b\<close> as a contiguous run.\<close>

fun str_in :: "string \<Rightarrow> string \<Rightarrow> bool" where
  "str_in a [] = (a = [])"
| "str_in a (c # cs) = (startswith (c # cs) a \<or> str_in a cs)"

subsection \<open>Containers\<close>

text \<open>\<open>len(x)\<close>: defined on strings, lists and dictionaries, a \<open>TypeError\<close> elsewhere.\<close>

fun py_len :: "json \<Rightarrow> error + nat" where
  "py_len (JStr s) = Inr (length s)"
| "py_len (JList xs) = Inr (length xs)"
| "py_len (JDict kvs) = Inr (length kvs)"
| "py_len v = Inl TypeError"

text \<open>
  \<open>for x in v\<close>: the elements of a list, the one-character strings of a string, the
  keys of a dictionary; a \<open>TypeError\<close> for a value that cannot be iterated.
\<close>

fun py_iter :: "json \<Rightarrow> error + json list" where
  "py_iter (JList xs) = Inr xs"
| "py_iter (JStr s) = Inr (map (\<lambda>c. JStr [c]) s)"
| "py_iter (JDict kvs) = Inr (map (\<lambda>kv. JStr (fst kv)) kvs)"
| "py_iter v = Inl TypeError"

text \<open>
  \<open>k in v\<close> for a string literal \<open>k\<close>: key membership in a dictionary, element
  membership in a list, substring test in a string, a \<open>TypeError\<close> elsewhere.
\<close>

fun py_contains :: "string \<Rightarrow> json \<Rightarrow> error + bool" where
  "py_contains k (JDict kvs) = Inr (map_of kvs k \<noteq> None)"
| "py_contains k (JList xs) = Inr (JStr k \<in> set xs)"
| "py_contains k (JStr s) = Inr (str_in k s)"
| "py_contains k v = Inl TypeError"

text \<open>\<open>v[k]\<close> for a string literal \<open>k\<close>.\<close>

fun py_index :: "json \<Rightarrow> string \<Rightarrow> error + json" where
  "py_index (JDict kvs) k = (case map_of kvs k of None \<Rightarrow> Inl KeyError | Some x \<Rightarrow> Inr x)"
| "py_index v k = Inl TypeError"

text \<open>\<open>v.get(k, d)\<close>: only a dictionary has the method.\<close>

fun py_get :: "json \<Rightarrow> string \<Rightarrow> json \<Rightarrow> error + json" where
  "py_get (JDict kvs) k d = Inr (case map_of kvs k of None \<Rightarrow> d | Some x \<Rightarrow> x)"
| "py_get v k d = Inl AttributeError"

fun is_dict :: "json \<Rightarrow> bool" where
  "is_dict (JDict kvs) = True"
| "is_dict v = False"

fun is_list :: "json \<Rightarrow> bool" where
  "is_list (JList xs) = True"
| "is_list v = False"

subsection \<open>Equality and dictionary keys\<close>

text \<open>
  \<open>a == b\<close>. A boolean equals the integer 0 or 1 it stands for; lists are equal
  element by element; dictionaries are equal when they bind the same keys to equal
  values, whatever the order.
\<close>

fun py_eq :: "json \<Rightarrow> json \<Rightarrow> bool"
  and py_eq_list :: "json list \<Rightarrow> json list \<Rightarrow> bool"
  and py_eq_dict :: "(string \<times> json) list \<Rightarrow> (string \<times> json) list \<Rightarrow> bool"
  and py_eq_entry :: "string \<Rightarrow> json \<Rightarrow> (string \<times> json) list \<Rightarrow> bool" where
  "py_eq JNull JNull = True"
| "py_eq (JBool a) (JBool b) = (a = b)"
| "py_eq (JBool a) (JInt j) = ((if a then 1 else 0) = j)"
| "py_eq (JInt i) (JBool b) = (i = (if b then 1 else 0))"
| "py_eq (JInt i) (JInt j) = (i = j)"
| "py_eq (JStr s) (JStr t) = (s = t)"
| "py_eq (JList xs) (JList ys) = py_eq_list xs ys"
| "py_eq (JDict a) (JDict b) = (length a = length b \<and> py_eq_dict a b)"
| "py_eq v w = False"
| "py_eq_list [] [] = True"
| "py_eq_list (x # xs) (y # ys) = (py_eq x y \<and> py_eq_list xs ys)"
| "py_eq_list xs ys = False"
| "py_eq_dict [] b = True"
| "py_eq_dict (kv # a) b = (py_eq_entry (fst kv) (snd kv) b \<and> py_eq_dict a b)"
| "py_eq_entry k v [] = False"
| "py_eq_entry k v (kv # b) = (if k = fst kv then py_eq v (snd kv) else py_eq_entry k v b)"

text \<open>
  A list or a dictionary cannot be hashed: using one as a dictionary key, as a member of
  a set or inside a tuple that is hashed raises \<open>TypeError\<close>. Two hashable values
  are the same key exactly when they are equal, that is when \<open>hkey\<close> maps them to the
  same value.
\<close>

fun hashable :: "json \<Rightarrow> bool" where
  "hashable (JList xs) = False"
| "hashable (JDict kvs) = False"
| "hashable v = True"

fun hkey :: "json \<Rightarrow> json" where
  "hkey (JBool b) = JInt (if b then 1 else 0)"
| "hkey v = v"

text \<open>A dictionary with string keys: \<open>d[k] = v\<close> and \<open>d.get(k, dflt)\<close>.\<close>

fun dict_set :: "string \<Rightarrow> 'v \<Rightarrow> (string \<times> 'v) list \<Rightarrow> (string \<times> 'v) list" where
  "dict_set k v [] = [(k, v)]"
| "dict_set k v (kv # d) = (if fst kv = k then (k, v) # d else kv # dict_set k v d)"

definition dict_get :: "(string \<times> json) list \<Rightarrow> string \<Rightarrow> json \<Rightarrow> json" where
  "dict_get d k dflt = (case map_of d k of None \<Rightarrow> dflt | Some x \<Rightarrow> x)"

text \<open>A dictionary whose keys are hashable values, in insertion order.\<close>

fun jd_lookup :: "(json \<times> 'v) list \<Rightarrow> json \<Rightarrow> 'v option" where
  "jd_lookup [] k = None"
| "jd_lookup (kv # d) k = (if hkey (fst kv) = hkey k then Some (snd kv) else jd_lookup d k)"

fun jd_set :: "json \<Rightarrow> 'v \<Rightarrow> (json \<times> 'v) list \<Rightarrow> (json \<times> 'v) list" where
  "jd_set k v [] = [(k, v)]"
| "jd_set k v (kv # d) =
     (if hkey (fst kv) = hkey k then (fst kv, v) # d else kv # jd_set k v d)"

section \<open>Year fields\<close>

text \<open>\<open>TecdocClient._format_year_month\<close>.\<close>

definition format_year_month :: "json \<Rightarrow> string" where
  "format_year_month date_value =
     (if \<not> truthy date_value then ''''
      else let date_str = py_str date_value in
        if length date_str = 7 \<and> CHR ''-'' \<in> set date_str then date_str
        else if length date_str = 6 \<and> isdigit date_str
          then take 4 date_str @ ''-'' @ take 2 (drop 4 date_str)
        else if length date_str = 4 \<and> isdigit date_str then date_str @ ''-01''
        else date_str)"

section \<open>Vehicle rows and their deduplication\<close>

text \<open>
  A row of \<open>csv_data['vehicles']\<close>, with the fourteen keys that
  \<open>process_vehicle_linkages\<close> gives every row. A field that the source fills with an
  unconverted value of the response is a \<open>json\<close>; a field it always builds as text is
  a string.
\<close>

record vehicle_row =
  article_id :: int
  vehicle_mfr_name :: json
  model_series_name :: json
  type_name :: json
  year_from :: string
  year_to :: string
  engine_cc :: string
  power_hp :: string
  fuel_type :: json
  body_style :: json
  drive_type :: json
  kba_numbers :: string
  engine_code :: string
  other_restrictions :: string






section \<open>The provisional vehicle index\<close>

text \<open>
  An entry of \<open>vehicle_lookup\<close> (the dictionary with the keys \<open>row\<close>, \<open>mfr_id\<close>,
  \<open>mfr_name\<close> and \<open>construction_type\<close>), and the two parts of the client's state
  that the vehicle functions read and write: \<open>csv_data['vehicles']\<close> and
  \<open>vehicle_lookup\<close>, a dictionary from the correlation hint to its entries.
\<close>

record vehicle_info =
  row :: vehicle_row
  mfr_id :: json
  mfr_name :: json
  construction_type :: json

record client =
  vehicles :: "vehicle_row list"
  vehicle_lookup :: "(json \<times> vehicle_info list) list"

text \<open>
  \<open>process_vehicle_linkages\<close>, first part: the record list of the response. The empty
  list stands for the early return (nothing found, or what was found is no list).
\<close>

definition linkages_data_of :: "json \<Rightarrow> error + json list" where
  "linkages_data_of linkages_response =
     (if \<not> truthy linkages_response then Inr []
      else
        and_then (py_contains ''array'' linkages_response) (\<lambda>has_array.
        and_then
          (if has_array then py_index linkages_response ''array''
           else
             and_then (py_contains ''data'' linkages_response) (\<lambda>has_data.
               if has_data then
                 and_then (py_get linkages_response ''data'' (JDict [])) (\<lambda>data.
                 and_then (py_contains ''array'' data) (\<lambda>data_has_array.
                   if data_has_array then py_index data ''array''
                   else if is_list data then Inr data
                   else Inr JNull))
               else Inr JNull))
          (\<lambda>linkages_data. case linkages_data of JList xs \<Rightarrow> Inr xs | _ \<Rightarrow> Inr [])))"

text \<open>
  The three item assignments on a linked vehicle; only a dictionary takes them.
\<close>

definition tag_vehicle :: "json \<Rightarrow> json \<Rightarrow> json \<Rightarrow> error + (string \<times> json) list" where
  "tag_vehicle article_link_id linking_target_id vehicle =
     (case vehicle of
        JDict kvs \<Rightarrow>
          (let kvs1 = dict_set ''_articleLinkId'' article_link_id kvs;
               kvs2 = dict_set ''_linkingTargetId'' linking_target_id kvs1
           in Inr (dict_set ''_constructionType''
                     (dict_get kvs2 ''constructionType'' (JStr [])) kvs2))
      | _ \<Rightarrow> Inl TypeError)"

fun tag_vehicles ::
  "json \<Rightarrow> json \<Rightarrow> json list \<Rightarrow> error + (string \<times> json) list list" where
  "tag_vehicles article_link_id linking_target_id [] = Inr []"
| "tag_vehicles article_link_id linking_target_id (vehicle # rest) =
     and_then (tag_vehicle article_link_id linking_target_id vehicle) (\<lambda>v.
     and_then (tag_vehicles article_link_id linking_target_id rest) (\<lambda>vs. Inr (v # vs)))"

definition linked_vehicles_of :: "json \<Rightarrow> error + (string \<times> json) list list" where
  "linked_vehicles_of item =
     (case item of
        JDict kvs \<Rightarrow>
          (let article_link_id = dict_get kvs ''articleLinkId'' (JStr []);
               linking_target_id = dict_get kvs ''linkingTargetId'' (JStr [])
           in case map_of kvs ''linkedVehicles'' of
                None \<Rightarrow> Inr []
              | Some (JDict lv) \<Rightarrow>
                  (case map_of lv ''array'' of
                     None \<Rightarrow> Inr []
                   | Some arr \<Rightarrow>
                       and_then (py_iter arr) (tag_vehicles article_link_id linking_target_id))
              | Some (JList xs) \<Rightarrow> tag_vehicles article_link_id linking_target_id xs
              | Some _ \<Rightarrow> Inr [])
      | _ \<Rightarrow> Inr [])"

fun collect_vehicles :: "json list \<Rightarrow> error + (string \<times> json) list list" where
  "collect_vehicles [] = Inr []"
| "collect_vehicles (item # items) =
     and_then (linked_vehicles_of item) (\<lambda>vs.
     and_then (collect_vehicles items) (\<lambda>rest. Inr (vs @ rest)))"

text \<open>The second loop of \<open>process_vehicle_linkages\<close>: one row per linked vehicle.\<close>

definition power_hp_of :: "(string \<times> json) list \<Rightarrow> string" where
  "power_hp_of vehicle =
     (if map_of vehicle ''powerHpFrom'' \<noteq> None then
        (let power_from = dict_get vehicle ''powerHpFrom'' (JStr []);
             power_to = dict_get vehicle ''powerHpTo'' (JStr [])
         in if truthy power_from \<and> truthy power_to \<and> \<not> py_eq power_from power_to
              then py_str power_from @ ''-'' @ py_str power_to
            else if truthy power_from then py_str power_from
            else [])
      else [])"

definition linking_target_id_of :: "(string \<times> json) list \<Rightarrow> json" where
  "linking_target_id_of vehicle =
     py_or (dict_get vehicle ''_linkingTargetId'' JNull) (dict_get vehicle ''carId'' (JStr []))"

definition construction_type_of :: "(string \<times> json) list \<Rightarrow> json" where
  "construction_type_of vehicle =
     dict_get vehicle ''_constructionType'' (dict_get vehicle ''constructionType'' (JStr []))"

definition vehicle_row_of :: "int \<Rightarrow> (string \<times> json) list \<Rightarrow> vehicle_row" where
  "vehicle_row_of aid vehicle =
     \<lparr>article_id = aid,
      vehicle_mfr_name = dict_get vehicle ''manuDesc'' (JStr []),
      model_series_name = dict_get vehicle ''modelDesc'' (JStr []),
      type_name = dict_get vehicle ''carDesc'' (JStr []),
      year_from = format_year_month (dict_get vehicle ''yearOfConstructionFrom'' (JStr [])),
      year_to = format_year_month (dict_get vehicle ''yearOfConstructionTo'' (JStr [])),
      engine_cc =
        (if truthy (dict_get vehicle ''cylinderCapacity'' JNull)
         then py_str (dict_get vehicle ''cylinderCapacity'' (JStr [])) else []),
      power_hp = power_hp_of vehicle,
      fuel_type = JStr [],
      body_style = construction_type_of vehicle,
      drive_type = JStr [],
      kba_numbers = [],
      engine_code = [],
      other_restrictions = []\<rparr>"

definition vehicle_info_of :: "int \<Rightarrow> (string \<times> json) list \<Rightarrow> vehicle_info" where
  "vehicle_info_of aid vehicle =
     \<lparr>row = vehicle_row_of aid vehicle,
      mfr_id = dict_get vehicle ''manuId'' (JStr []),
      mfr_name = dict_get vehicle ''manuDesc'' (JStr []),
      construction_type = construction_type_of vehicle\<rparr>"

definition store_vehicle :: "int \<Rightarrow> client \<Rightarrow> (string \<times> json) list \<Rightarrow> error + client" where
  "store_vehicle aid st vehicle =
     (let linking_target_id = linking_target_id_of vehicle in
      if truthy linking_target_id then
        (if \<not> hashable linking_target_id then Inl TypeError
         else
           (let entries = (case jd_lookup (vehicle_lookup st) linking_target_id of
                             None \<Rightarrow> [] | Some l \<Rightarrow> l)
            in Inr (st\<lparr>vehicle_lookup :=
                      jd_set linking_target_id (entries @ [vehicle_info_of aid vehicle])
                        (vehicle_lookup st)\<rparr>)))
      else Inr (st\<lparr>vehicles := vehicles st @ [vehicle_row_of aid vehicle]\<rparr>))"

fun store_vehicles :: "int \<Rightarrow> client \<Rightarrow> (string \<times> json) list list \<Rightarrow> error + client" where
  "store_vehicles aid st [] = Inr st"
| "store_vehicles aid st (vehicle # rest) =
     and_then (store_vehicle aid st vehicle) (\<lambda>st'. store_vehicles aid st' rest)"

text \<open>
  \<open>process_vehicle_linkages(article_id, linkages_response, linkage_pairs_map)\<close>; the
  function never reads \<open>linkage_pairs_map\<close>.
\<close>

definition process_vehicle_linkages :: "int \<Rightarrow> json \<Rightarrow> client \<Rightarrow> error + client" where
  "process_vehicle_linkages aid linkages_response st =
     and_then (linkages_data_of linkages_response) (\<lambda>linkages_data.
     and_then (collect_vehicles linkages_data) (\<lambda>actual_vehicles.
       store_vehicles aid st actual_vehicles))"

text \<open>
  \<open>process_attributes_data\<close> up to its loop: the value the loop goes through, or
  \<open>None\<close> when the function returns before the loop. The function starts by printing
  the keys of a response that is true, and each branch prints the length of what it
  found.
\<close>

definition attributes_data_of :: "json \<Rightarrow> error + json option" where
  "attributes_data_of attributes_response =
     (if \<not> truthy attributes_response then Inr None
      else if \<not> is_dict attributes_response then Inl AttributeError
      else
        and_then (py_contains ''array'' attributes_response) (\<lambda>has_array.
        and_then
          (if has_array then
             and_then (py_index attributes_response ''array'') (\<lambda>found.
             and_then (py_len found) (\<lambda>n. Inr found))
           else
             and_then (py_contains ''data'' attributes_response) (\<lambda>has_data.
               if has_data then
                 and_then (py_get attributes_response ''data'' (JDict [])) (\<lambda>data.
                 and_then (py_contains ''array'' data) (\<lambda>data_has_array.
                   if data_has_array then
                     and_then (py_index data ''array'') (\<lambda>found.
                     and_then (py_len found) (\<lambda>n. Inr found))
                   else if is_list data then
                     and_then (py_len data) (\<lambda>n. Inr data)
                   else Inr JNull))
               else if is_list attributes_response then Inr attributes_response
               else Inr JNull))
          (\<lambda>attributes_data.
             if truthy attributes_data then Inr (Some attributes_data) else Inr None)))"

text \<open>The entries waiting in the provisional index, in the order the correlator takes them.\<close>

definition pending :: "client \<Rightarrow> vehicle_info list" where
  "pending st = concat (map snd (vehicle_lookup st))"

section \<open>The paginated collector\<close>

lemma and_then_cong [fundef_cong]:
  "m = m' \<Longrightarrow> (\<And>x. m' = Inr x \<Longrightarrow> f x = f' x) \<Longrightarrow> and_then m f = and_then m' f'"
  by (cases m') (simp_all add: and_then_def)

text \<open>A value compared with an integer by \<open><\<close> or \<open>>\<close>: an integer or a boolean.\<close>

fun py_num :: "json \<Rightarrow> error + int" where
  "py_num (JInt i) = Inr i"
| "py_num (JBool b) = Inr (if b then 1 else 0)"
| "py_num v = Inl TypeError"

text \<open>\<open>all_targets.extend(page_targets)\<close>: only a list has the method.\<close>

definition py_extend :: "json \<Rightarrow> json \<Rightarrow> error + json" where
  "py_extend all_targets page_targets =
     (case all_targets of
        JList xs \<Rightarrow> and_then (py_iter page_targets) (\<lambda>ys. Inr (JList (xs @ ys)))
      | _ \<Rightarrow> Inl AttributeError)"

text \<open>
  The \<open>while\<close> loop of \<open>get_linkage_targets\<close>. \<open>make_request\<close> gives the body
  answered to the request for a page (the empty dictionary when the request failed);
  \<open>requested\<close> lists the pages requested so far, in the order of the requests.
\<close>

function fetch_pages ::
  "(nat \<Rightarrow> json) \<Rightarrow> int \<Rightarrow> int \<Rightarrow> nat \<Rightarrow> json \<Rightarrow> nat list \<Rightarrow> error + json \<times> nat list" where
  "fetch_pages make_request total' returned page all_targets requested =
     (if returned < total' \<and> page \<le> 500 then
        and_then
          (if truthy (make_request page)
           then py_contains ''linkageTargets'' (make_request page) else Inr False)
          (\<lambda>present.
             if present then
               and_then (py_get (make_request page) ''linkageTargets'' (JList []))
                 (\<lambda>page_targets.
               and_then (py_len page_targets) (\<lambda>n.
                 if n = 0 then Inr (all_targets, requested @ [page])
                 else
                   and_then (py_extend all_targets page_targets) (\<lambda>extended.
                     fetch_pages make_request total' (returned + int n) (Suc page) extended
                       (requested @ [page]))))
             else Inr (all_targets, requested @ [page]))
      else Inr (all_targets, requested))"
  by pat_completeness auto
termination
  by (relation "measure (\<lambda>(m, t, r, page, a, q). 501 - page)") auto

declare fetch_pages.simps [simp del]

text \<open>
  \<open>get_linkage_targets\<close>: the response, with the pages requested. The function prints
  the keys of a first response that is true and the length of its \<open>linkageTargets\<close>
  before it looks at \<open>total\<close>.
\<close>

definition get_linkage_targets :: "(nat \<Rightarrow> json) \<Rightarrow> error + json \<times> nat list" where
  "get_linkage_targets make_request =
     (let response = make_request 1 in
      if \<not> truthy response then Inr (response, [1])
      else
        case response of
          JDict kvs \<Rightarrow>
            and_then
              (case map_of kvs ''linkageTargets'' of None \<Rightarrow> Inr 0 | Some t \<Rightarrow> py_len t)
              (\<lambda>shown.
                 if map_of kvs ''total'' = None then Inr (response, [1])
                 else
                   and_then (py_len (dict_get kvs ''linkageTargets'' (JList []))) (\<lambda>returned.
                   and_then (py_num (dict_get kvs ''total'' (JInt 0))) (\<lambda>total'.
                     if total' > int returned \<and> returned > 0 then
                       and_then
                         (fetch_pages make_request total' (int returned) 2
                            (dict_get kvs ''linkageTargets'' (JList [])) [1])
                         (\<lambda>r. Inr (JDict (dict_set ''linkageTargets'' (fst r) kvs), snd r))
                     else Inr (response, [1]))))
        | _ \<Rightarrow> Inl AttributeError)"

section \<open>The linkage correlator\<close>


text \<open>\<open>v.strip()\<close> on a value of the response: only a string has the method.\<close>

definition py_strip :: "json \<Rightarrow> error + string" where
  "py_strip v = (case v of JStr s \<Rightarrow> Inr (strip s) | _ \<Rightarrow> Inl AttributeError)"

text \<open>
  The two fallback indexes, \<open>lookup_by_desc\<close> and \<open>lookup_by_specs\<close>: dictionaries
  from a key text to the list of the detail records put under it, in insertion order.
\<close>

type_synonym index = "(string \<times> json list) list"

definition dict_append :: "string \<Rightarrow> json \<Rightarrow> index \<Rightarrow> index" where
  "dict_append k v d = dict_set k ((case map_of d k of None \<Rightarrow> [] | Some l \<Rightarrow> l) @ [v]) d"

definition desc_key :: "json \<Rightarrow> string \<Rightarrow> string" where
  "desc_key mfr desc = py_str mfr @ ''_'' @ desc"

definition specs_key :: "json \<Rightarrow> string \<Rightarrow> string \<Rightarrow> string \<Rightarrow> string" where
  "specs_key mfr model_series hpower capacity =
     py_str mfr @ ''_'' @ model_series @ ''_'' @ hpower @ ''_'' @ capacity"

definition index_target :: "json \<Rightarrow> index \<times> index \<Rightarrow> error + index \<times> index" where
  "index_target target idx =
     (case target of
        JDict kvs \<Rightarrow>
          and_then (py_strip (dict_get kvs ''description'' (JStr []))) (\<lambda>desc.
          and_then (py_strip (dict_get kvs ''vehicleModelSeriesName'' (JStr []))) (\<lambda>model_series.
            (let mfr = dict_get kvs ''mfrId'' (JStr []);
                 hpower = dict_get kvs ''horsePowerFrom'' (JStr []);
                 capacity = dict_get kvs ''capacityCC'' (JStr [])
             in Inr
                  (if desc \<noteq> [] \<and> truthy mfr
                   then dict_append (desc_key mfr desc) target (fst idx) else fst idx,
                   if truthy mfr \<and> model_series \<noteq> [] \<and> truthy hpower \<and> truthy capacity
                   then dict_append
                          (specs_key mfr model_series (py_str hpower) (py_str capacity))
                          target (snd idx)
                   else snd idx))))
      | _ \<Rightarrow> Inl AttributeError)"

fun build_indexes :: "json list \<Rightarrow> index \<times> index \<Rightarrow> error + index \<times> index" where
  "build_indexes [] idx = Inr idx"
| "build_indexes (target # rest) idx =
     and_then (index_target target idx) (\<lambda>idx'. build_indexes rest idx')"

text \<open>
  \<open>type_name in target_desc or target_desc in type_name\<close>, where \<open>type_name\<close> is a
  string and \<open>target_desc\<close> a value of a detail record.
\<close>

definition desc_matches :: "string \<Rightarrow> json \<Rightarrow> error + bool" where
  "desc_matches tname target_desc =
     and_then (py_contains tname target_desc) (\<lambda>inside.
       if inside then Inr True
       else (case target_desc of
               JStr d \<Rightarrow> Inr (str_in d tname)
             | _ \<Rightarrow> Inl TypeError))"

text \<open>
  The partial-match loop over \<open>lookup_by_desc.items()\<close>. \<open>Some t\<close>: the loop set
  \<open>linkage_target = t\<close> and broke; \<open>None\<close>: it ran to its end.
\<close>

fun scan_by_desc :: "index \<Rightarrow> string \<Rightarrow> string \<Rightarrow> string \<Rightarrow> error + json option" where
  "scan_by_desc [] key_prefix tname hpower = Inr None"
| "scan_by_desc ((lookup_key, []) # rest) key_prefix tname hpower =
     scan_by_desc rest key_prefix tname hpower"
| "scan_by_desc ((lookup_key, first # others) # rest) key_prefix tname hpower =
     (if startswith lookup_key key_prefix then
        and_then (py_get first ''description'' (JStr [])) (\<lambda>target_desc.
        and_then (desc_matches tname target_desc) (\<lambda>matches.
          if matches \<and> length tname > 5 then
            and_then (py_get first ''horsePowerFrom'' (JStr [])) (\<lambda>hp.
              if hpower = py_str hp \<or> py_str hp = [] then Inr (Some first)
              else scan_by_desc rest key_prefix tname hpower)
          else scan_by_desc rest key_prefix tname hpower))
      else scan_by_desc rest key_prefix tname hpower)"

text \<open>Strategy 1: the exact key first, the partial-match loop otherwise.\<close>

definition match_by_desc :: "index \<Rightarrow> json \<Rightarrow> string \<Rightarrow> string \<Rightarrow> error + json" where
  "match_by_desc lookup_by_desc mfr tname hpower =
     (if truthy mfr \<and> tname \<noteq> [] then
        (case map_of lookup_by_desc (desc_key mfr tname) of
           Some (first # others) \<Rightarrow> Inr first
         | _ \<Rightarrow>
             and_then (scan_by_desc lookup_by_desc (py_str mfr @ ''_'') tname hpower)
               (\<lambda>found. Inr (case found of None \<Rightarrow> JDict [] | Some t \<Rightarrow> t)))
      else Inr (JDict []))"

















text \<open>
  The key of \<open>lookup_by_desc\<close> under which the index-building loop stores a detail
  record; \<open>None\<close> for a record it does not store there.
\<close>

definition desc_index_key :: "json \<Rightarrow> string option" where
  "desc_index_key target =
     (case target of
        JDict kvs \<Rightarrow>
          (case py_strip (dict_get kvs ''description'' (JStr [])) of
             Inr desc \<Rightarrow>
               (if desc \<noteq> [] \<and> truthy (dict_get kvs ''mfrId'' (JStr []))
                then Some (desc_key (dict_get kvs ''mfrId'' (JStr [])) desc) else None)
           | Inl e \<Rightarrow> None)
      | _ \<Rightarrow> None)"

text \<open>The detail records stored under a key of an index; none when the key is absent.\<close>

definition entries :: "index \<Rightarrow> string \<Rightarrow> json list" where
  "entries d k = (case map_of d k of None \<Rightarrow> [] | Some l \<Rightarrow> l)"

section \<open>The reference accumulator\<close>

text \<open>
  A row of \<open>csv_data['references']\<close>; its keys are \<open>article_id\<close>, \<open>ref_type\<close>,
  \<open>number\<close> and \<open>mfr_name\<close> (two of the names are prefixed here, the vehicle records
  have fields of the same name).
\<close>

record reference_row =
  ref_article_id :: int
  ref_type :: json
  number :: json
  ref_mfr_name :: json

text \<open>
  \<open>existing_refs\<close>: the set of the keys \<open>(ref_type, number, mfr_name)\<close> of the rows
  already there for the article; a key is a tuple, hashed when it is added.
\<close>

fun initial_refs :: "int \<Rightarrow> reference_row list \<Rightarrow> error + json list set" where
  "initial_refs aid [] = Inr {}"
| "initial_refs aid (ref # rest) =
     (if ref_article_id ref = aid then
        (if list_all hashable [ref_type ref, number ref, ref_mfr_name ref]
         then and_then (initial_refs aid rest)
                (\<lambda>s. Inr (insert (map hkey [ref_type ref, number ref, ref_mfr_name ref]) s))
         else Inl TypeError)
      else initial_refs aid rest)"

text \<open>The state of the loop over the articles: the rows, \<open>existing_refs\<close>, \<open>ean_added\<close>.\<close>

type_synonym ref_state = "reference_row list \<times> json list set \<times> bool"

text \<open>The loop over \<open>article['gtins']\<close>, left at the first EAN that is added.\<close>

fun add_first_ean :: "int \<Rightarrow> json list \<Rightarrow> ref_state \<Rightarrow> ref_state" where
  "add_first_ean aid [] acc = acc"
| "add_first_ean aid (gtin # rest) acc =
     (if strip (py_str gtin) \<noteq> [] \<and>
         [JStr ''EAN'', JStr (strip (py_str gtin)), JStr []] \<notin> fst (snd acc)
      then (fst acc @ [\<lparr>ref_article_id = aid, ref_type = JStr ''EAN'',
                        number = JStr (strip (py_str gtin)), ref_mfr_name = JStr []\<rparr>],
            insert [JStr ''EAN'', JStr (strip (py_str gtin)), JStr []] (fst (snd acc)),
            True)
      else add_first_ean aid rest acc)"

text \<open>The loop over \<open>article['tradeNumbers']\<close>.\<close>

fun add_trade_numbers :: "int \<Rightarrow> json list \<Rightarrow> ref_state \<Rightarrow> ref_state" where
  "add_trade_numbers aid [] acc = acc"
| "add_trade_numbers aid (trade_num # rest) acc =
     (if strip (py_str trade_num) \<noteq> [] \<and>
         [JStr ''TRADE'', JStr (strip (py_str trade_num)), JStr []] \<notin> fst (snd acc)
      then add_trade_numbers aid rest
             (fst acc @ [\<lparr>ref_article_id = aid, ref_type = JStr ''TRADE'',
                          number = JStr (strip (py_str trade_num)), ref_mfr_name = JStr []\<rparr>],
              insert [JStr ''TRADE'', JStr (strip (py_str trade_num)), JStr []] (fst (snd acc)),
              snd (snd acc))
      else add_trade_numbers aid rest acc)"

text \<open>
  The loops over \<open>oemNumbers\<close>, \<open>comparableNumbers\<close>, \<open>replacesArticles\<close> and
  \<open>replacedByArticles\<close>, which differ in the type they write: an item is a dictionary
  with \<open>articleNumber\<close> and \<open>mfrName\<close>, or any other value taken as text.
\<close>

definition named_number :: "json \<Rightarrow> json \<times> json" where
  "named_number item =
     (case item of
        JDict kvs \<Rightarrow> (dict_get kvs ''articleNumber'' (JStr []), dict_get kvs ''mfrName'' (JStr []))
      | _ \<Rightarrow> (JStr (strip (py_str item)), JStr []))"

fun add_named_numbers :: "int \<Rightarrow> string \<Rightarrow> json list \<Rightarrow> ref_state \<Rightarrow> error + ref_state" where
  "add_named_numbers aid rtype [] acc = Inr acc"
| "add_named_numbers aid rtype (item # rest) acc =
     (if truthy (fst (named_number item)) then
        (if \<not> list_all hashable [fst (named_number item), snd (named_number item)]
         then Inl TypeError
         else if map hkey [JStr rtype, fst (named_number item), snd (named_number item)]
                   \<notin> fst (snd acc)
         then add_named_numbers aid rtype rest
                (fst acc @ [\<lparr>ref_article_id = aid, ref_type = JStr rtype,
                             number = fst (named_number item),
                             ref_mfr_name = snd (named_number item)\<rparr>],
                 insert (map hkey [JStr rtype, fst (named_number item), snd (named_number item)])
                   (fst (snd acc)),
                 snd (snd acc))
         else add_named_numbers aid rtype rest acc)
      else add_named_numbers aid rtype rest acc)"

text \<open>
  The items of a section of an article (\<open>if k in article and article[k]: for x in
  article[k]\<close>); no items when the key is absent or its value false.
\<close>

definition section_items :: "(string \<times> json) list \<Rightarrow> string \<Rightarrow> error + json list" where
  "section_items article k =
     (case map_of article k of
        None \<Rightarrow> Inr []
      | Some v \<Rightarrow> if truthy v then py_iter v else Inr [])"

text \<open>The filter on the manufacturer and the article number.\<close>

definition article_passes :: "json \<Rightarrow> json \<Rightarrow> (string \<times> json) list \<Rightarrow> bool" where
  "article_passes supplier_id article_number article =
     (\<not> (truthy supplier_id \<and> \<not> py_eq (dict_get article ''dataSupplierId'' JNull) supplier_id) \<and>
      \<not> (truthy article_number \<and>
         \<not> py_eq (dict_get article ''articleNumber'' (JStr [])) article_number))"

definition extract_article ::
  "int \<Rightarrow> json \<Rightarrow> json \<Rightarrow> json \<Rightarrow> ref_state \<Rightarrow> error + ref_state" where
  "extract_article aid supplier_id article_number article acc =
     (case article of
        JDict kvs \<Rightarrow>
          if \<not> article_passes supplier_id article_number kvs then Inr acc
          else
            and_then (if snd (snd acc) then Inr acc
                      else and_then (section_items kvs ''gtins'')
                             (\<lambda>gtins. Inr (add_first_ean aid gtins acc))) (\<lambda>a1.
            and_then (section_items kvs ''tradeNumbers'') (\<lambda>trade.
            and_then (section_items kvs ''oemNumbers'') (\<lambda>oem.
            and_then (add_named_numbers aid ''OE'' oem (add_trade_numbers aid trade a1)) (\<lambda>a3.
            and_then (section_items kvs ''comparableNumbers'') (\<lambda>comp.
            and_then (add_named_numbers aid ''COMPARABLE'' comp a3) (\<lambda>a4.
            and_then (section_items kvs ''replacesArticles'') (\<lambda>repl.
            and_then (add_named_numbers aid ''REPLACEMENT'' repl a4) (\<lambda>a5.
            and_then (section_items kvs ''replacedByArticles'') (\<lambda>replaced.
              add_named_numbers aid ''REPLACED'' replaced a5)))))))))
      | _ \<Rightarrow> Inl AttributeError)"

fun extract_articles ::
  "int \<Rightarrow> json \<Rightarrow> json \<Rightarrow> json list \<Rightarrow> ref_state \<Rightarrow> error + ref_state" where
  "extract_articles aid supplier_id article_number [] acc = Inr acc"
| "extract_articles aid supplier_id article_number (article # rest) acc =
     and_then (extract_article aid supplier_id article_number article acc) (\<lambda>acc'.
       extract_articles aid supplier_id article_number rest acc')"

text \<open>
  \<open>extract_all_reference_numbers(article_id, reference_response, supplier_id,
  article_number)\<close> on the rows of \<open>csv_data['references']\<close>.
\<close>

definition extract_all_reference_numbers ::
  "int \<Rightarrow> json \<Rightarrow> json \<Rightarrow> json \<Rightarrow> reference_row list \<Rightarrow> error + reference_row list" where
  "extract_all_reference_numbers aid reference_response supplier_id article_number references =
     (if \<not> truthy reference_response then Inr references
      else
        and_then (py_contains ''articles'' reference_response) (\<lambda>present.
          if \<not> present then Inr references
          else
            and_then (py_get reference_response ''articles'' (JList [])) (\<lambda>articles.
              if \<not> truthy articles then Inr references
              else
                and_then (py_len articles) (\<lambda>shown.
                and_then (initial_refs aid references) (\<lambda>existing_refs.
                and_then (py_iter articles) (\<lambda>items.
                and_then
                  (extract_articles aid supplier_id article_number items
                     (references, existing_refs, False))
                  (\<lambda>acc. Inr (fst acc))))))))"

text \<open>
  The EAN rows of a parent in a list of rows, and the candidate EAN values of a call in
  input order as the specification reads them: the texts, blank ones left out, of the
  \<open>gtins\<close> of the articles that pass the filter.
\<close>

definition ean_refs :: "int \<Rightarrow> reference_row list \<Rightarrow> reference_row list" where
  "ean_refs aid refs =
     filter (\<lambda>r. ref_article_id r = aid \<and> ref_type r = JStr ''EAN'') refs"

definition gtin_texts :: "(string \<times> json) list \<Rightarrow> string list" where
  "gtin_texts article =
     (case section_items article ''gtins'' of
        Inr gtins \<Rightarrow> filter (\<lambda>g. g \<noteq> []) (map (\<lambda>gtin. strip (py_str gtin)) gtins)
      | Inl e \<Rightarrow> [])"

fun ean_candidates :: "json \<Rightarrow> json \<Rightarrow> json list \<Rightarrow> string list" where
  "ean_candidates supplier_id article_number [] = []"
| "ean_candidates supplier_id article_number (JDict kvs # rest) =
     (if article_passes supplier_id article_number kvs then gtin_texts kvs else []) @
     ean_candidates supplier_id article_number rest"
| "ean_candidates supplier_id article_number (v # rest) =
     ean_candidates supplier_id article_number rest"

text \<open>
  Notions used to state what a call does: a set of keys without an EAN key, and the EAN
  row of a parent for a value.
\<close>

definition no_ean_keys :: "json list set \<Rightarrow> bool" where
  "no_ean_keys existing = (\<forall>k \<in> existing. hd k \<noteq> JStr ''EAN'')"

definition ean_row :: "int \<Rightarrow> string \<Rightarrow> reference_row" where
  "ean_row aid g =
     \<lparr>ref_article_id = aid, ref_type = JStr ''EAN'', number = JStr g, ref_mfr_name = JStr []\<rparr>"

text \<open>
  The effect of a step on the EAN rows of the parent: either none is added and the flag
  \<open>ean_added\<close> stays, or exactly one is added, the flag was down and is now up.
\<close>

definition ean_step :: "int \<Rightarrow> ref_state \<Rightarrow> ref_state \<Rightarrow> reference_row list \<Rightarrow> bool" where
  "ean_step aid acc acc' new =
     (fst acc' = fst acc @ new \<and>
      ((ean_refs aid new = [] \<and> snd (snd acc') = snd (snd acc)) \<or>
       (\<exists>g. ean_refs aid new = [ean_row aid g] \<and> snd (snd acc') \<and> \<not> snd (snd acc))))"

text \<open>The EAN row that the first of a list of candidates gives, if there is one.\<close>

definition first_candidate_row :: "int \<Rightarrow> string list \<Rightarrow> reference_row list" where
  "first_candidate_row aid candidates =
     (case candidates of [] \<Rightarrow> [] | g # others \<Rightarrow> [ean_row aid g])"

section \<open>Example data\<close>

subsection \<open>Vehicle rows and a linkage batch\<close>


text \<open>
  A linkage batch with two items: the first carries a \<open>linkingTargetId\<close>, the second
  carries neither a \<open>linkingTargetId\<close> nor a \<open>carId\<close>.
\<close>

definition example_linkages :: json where
  "example_linkages =
     JDict [(''data'', JDict [(''array'', JList
       [JDict [(''articleLinkId'', JInt 1), (''linkingTargetId'', JInt 9001),
               (''linkedVehicles'', JList
                  [JDict [(''carId'', JInt 9001), (''manuId'', JInt 7),
                          (''manuDesc'', JStr ''FIAT''), (''modelDesc'', JStr ''PANDA (169_)''),
                          (''carDesc'', JStr ''Panda 1.2''), (''powerHpFrom'', JInt 69),
                          (''powerHpTo'', JInt 69), (''cylinderCapacity'', JInt 1242),
                          (''yearOfConstructionFrom'', JInt 200309),
                          (''constructionType'', JStr ''Hatchback'')]])],
        JDict [(''articleLinkId'', JInt 2),
               (''linkedVehicles'', JDict [(''array'', JList
                  [JDict [(''manuId'', JInt 7), (''manuDesc'', JStr ''FIAT''),
                          (''carDesc'', JStr ''Uno 45''),
                          (''constructionType'', JStr ''Saloon'')]])])]])])]"

subsection \<open>Upstream stubs\<close>

text \<open>
  Two upstream stubs: one answers every page with one new record and a total of 100000;
  the other answers the first page with one record of 250 and fails from the second
  page on.
\<close>

definition one_record_per_page :: "nat \<Rightarrow> json" where
  "one_record_per_page p =
     JDict [(''total'', JInt 100000),
            (''linkageTargets'', JList [JDict [(''linkageTargetId'', JInt (int p))]])]"

definition second_page_fails :: "nat \<Rightarrow> json" where
  "second_page_fails p =
     (if p = 1 then
        JDict [(''total'', JInt 250),
               (''linkageTargets'', JList [JDict [(''linkageTargetId'', JInt 1)]])]
      else JDict [])"

subsection \<open>Detail records and index entries\<close>




text \<open>
  Details for the partial match: one with a description of three characters, one with a
  long description, and two that share manufacturer and description but differ in power.
\<close>

definition detail_short :: json where
  "detail_short =
     JDict [(''linkageTargetId'', JInt 5601), (''mfrId'', JInt 7),
            (''description'', JStr ''1.2''), (''horsePowerFrom'', JInt 69),
            (''fuelType'', JStr ''Petrol'')]"

definition detail_long :: json where
  "detail_long =
     JDict [(''linkageTargetId'', JInt 5602), (''mfrId'', JInt 7),
            (''description'', JStr ''Panda 1.2 Dynamic''), (''horsePowerFrom'', JInt 69),
            (''fuelType'', JStr ''Petrol'')]"

definition detail_weak :: json where
  "detail_weak =
     JDict [(''linkageTargetId'', JInt 5603), (''mfrId'', JInt 7),
            (''description'', JStr ''Panda 1.2 Dynamic''), (''horsePowerFrom'', JInt 60),
            (''fuelType'', JStr ''LPG'')]"


subsection \<open>Reference responses\<close>

text \<open>Two responses of the reference search for the same article.\<close>

definition first_reference_response :: json where
  "first_reference_response =
     JDict [(''articles'', JList
       [JDict [(''dataSupplierId'', JInt 355), (''articleNumber'', JStr ''5.15025''),
               (''gtins'', JList [JStr ''4057795419360'', JStr ''4057795419377'']),
               (''tradeNumbers'', JList [JStr ''T-100''])]])]"

definition second_reference_response :: json where
  "second_reference_response =
     JDict [(''articles'', JList
       [JDict [(''dataSupplierId'', JInt 355), (''articleNumber'', JStr ''5.15025''),
               (''gtins'', JList [JStr ''4057795419360'', JStr ''4057795419377''])]])]"

section \<open>Properties\<close>

subsection \<open>Helper facts\<close>

lemma and_then_Inr: "and_then m f = Inr y \<longleftrightarrow> (\<exists>x. m = Inr x \<and> f x = Inr y)"
  by (cases m) (simp_all add: and_then_def)

lemma and_then_simps [simp]:
  "and_then (Inr x) f = f x" "and_then (Inl e) f = Inl e"
  by (simp_all add: and_then_def)

lemma map_of_dict_set: "map_of (dict_set k v d) = (map_of d)(k \<mapsto> v)"
  by (induction d) (auto simp: fun_eq_iff)

lemma dict_get_dict_set:
  "dict_get (dict_set k v d) k' dflt = (if k' = k then v else dict_get d k' dflt)"
  by (simp add: dict_get_def map_of_dict_set)


subsection \<open>Text of values\<close>

lemma isdigit_Cons: "isdigit (c # cs) \<Longrightarrow> is_digit_char c"
  by (simp add: isdigit_def)

lemma str_nat_nonempty: "str_nat n \<noteq> []"
  by (subst str_nat.simps) simp

lemma digit_text_truthy:
  assumes "isdigit (py_str v)" and "length (py_str v) = 4 \<or> length (py_str v) = 6"
  shows "truthy v"
proof (cases v)
  case JNull
  with assms show ?thesis by (simp add: isdigit_def is_digit_char_def)
next
  case (JBool b)
  with assms show ?thesis by (simp add: isdigit_def is_digit_char_def split: if_splits)
next
  case (JInt i)
  show ?thesis
  proof (cases "i = 0")
    case True
    with JInt assms show ?thesis by (simp add: str_int_def str_nat.simps)
  next
    case False
    with JInt show ?thesis by simp
  qed
next
  case (JStr s)
  with assms show ?thesis by auto
next
  case (JList xs)
  with assms show ?thesis by (simp add: isdigit_def is_digit_char_def)
next
  case (JDict kvs)
  with assms show ?thesis by (simp add: isdigit_def is_digit_char_def)
qed

lemma isdigit_no_dash: "isdigit s \<Longrightarrow> CHR ''-'' \<notin> set s"
  by (auto simp: isdigit_def list_all_iff is_digit_char_def)

subsection \<open>Year-field normalisation\<close>

text \<open>
  Claim C8. A value whose text is six digits \<open>YYYYMM\<close> becomes \<open>YYYY-MM\<close>, the
  separator inserted after the fourth digit; a value whose text is four digits
  \<open>YYYY\<close> becomes \<open>YYYY-01\<close>; a string already of the form \<open>YYYY-MM\<close> is returned
  as it is. The value may be a string or a number (\<open>199406\<close> and \<open>"199406"\<close> alike).
\<close>

theorem format_year_month_normalises:
  "(length (py_str v) = 6 \<and> isdigit (py_str v) \<longrightarrow>
      format_year_month v = take 4 (py_str v) @ ''-'' @ drop 4 (py_str v)) \<and>
   (length (py_str v) = 4 \<and> isdigit (py_str v) \<longrightarrow>
      format_year_month v = py_str v @ ''-01'') \<and>
   (length s = 7 \<and> isdigit (take 4 s) \<and> s ! 4 = CHR ''-'' \<and> isdigit (drop 5 s) \<longrightarrow>
      format_year_month (JStr s) = s)"
proof (intro conjI impI)
  assume a: "length (py_str v) = 6 \<and> isdigit (py_str v)"
  then have "truthy v" using digit_text_truthy by blast
  with a show "format_year_month v = take 4 (py_str v) @ ''-'' @ drop 4 (py_str v)"
    by (simp add: format_year_month_def Let_def)
next
  assume a: "length (py_str v) = 4 \<and> isdigit (py_str v)"
  then have "truthy v" using digit_text_truthy by blast
  with a show "format_year_month v = py_str v @ ''-01''"
    by (simp add: format_year_month_def Let_def)
next
  assume a: "length s = 7 \<and> isdigit (take 4 s) \<and> s ! 4 = CHR ''-'' \<and> isdigit (drop 5 s)"
  then have "s ! 4 \<in> set s" by (intro nth_mem) simp
  with a have "CHR ''-'' \<in> set s" by simp
  moreover from a have "s \<noteq> []" by auto
  ultimately show "format_year_month (JStr s) = s"
    using a by (simp add: format_year_month_def Let_def)
qed

theorem format_year_month_normalises_witness:
  "format_year_month (JInt 199406) = ''1994-06'' \<and>
   format_year_month (JStr ''199406'') = ''1994-06'' \<and>
   format_year_month (JInt 1994) = ''1994-01'' \<and>
   format_year_month (JStr ''1994-06'') = ''1994-06''"
  using format_year_month_normalises [of "JInt 199406" "''1994-06''"]
        format_year_month_normalises [of "JStr ''199406''" "''1994-06''"]
        format_year_month_normalises [of "JInt 1994" "''1994-06''"]
  by (simp add: isdigit_def is_digit_char_def str_int_def str_nat.simps)

subsection \<open>Deduplication of the vehicle rows\<close>








subsection \<open>The envelope of a response\<close>

text \<open>
  Claim C6, as the code has it. For a response that is a dictionary, both functions look
  at the key \<open>array\<close> first and at the key \<open>data\<close> only when \<open>array\<close> is absent;
  under \<open>data\<close> they take \<open>data.array\<close> when \<open>data\<close> is a dictionary with that
  key, and \<open>data\<close> itself when it is a list. The first key present decides: its list is
  the record list, and in \<open>process_vehicle_linkages\<close> a value under \<open>array\<close> that is
  no list gives the empty result without a look at \<open>data\<close>. A dictionary with neither
  key gives the empty result, with no error. A response that is itself a list gives no
  records in \<open>process_vehicle_linkages\<close>.
\<close>

theorem envelope_key_priority:
  "(map_of kvs ''array'' = Some (JList xs) \<longrightarrow>
      linkages_data_of (JDict kvs) = Inr xs \<and>
      attributes_data_of (JDict kvs) = Inr (if xs = [] then None else Some (JList xs))) \<and>
   (map_of kvs ''array'' = None \<and> map_of kvs ''data'' = Some (JDict d) \<and>
    map_of d ''array'' = Some (JList xs) \<longrightarrow>
      linkages_data_of (JDict kvs) = Inr xs \<and>
      attributes_data_of (JDict kvs) = Inr (if xs = [] then None else Some (JList xs))) \<and>
   (map_of kvs ''array'' = None \<and> map_of kvs ''data'' = Some (JList xs) \<and>
    JStr ''array'' \<notin> set xs \<longrightarrow>
      linkages_data_of (JDict kvs) = Inr xs \<and>
      attributes_data_of (JDict kvs) = Inr (if xs = [] then None else Some (JList xs))) \<and>
   (map_of kvs ''array'' = None \<and> map_of kvs ''data'' = None \<longrightarrow>
      linkages_data_of (JDict kvs) = Inr [] \<and> attributes_data_of (JDict kvs) = Inr None) \<and>
   (map_of kvs ''array'' = Some v \<and> \<not> is_list v \<longrightarrow> linkages_data_of (JDict kvs) = Inr []) \<and>
   (JStr ''array'' \<notin> set ys \<and> JStr ''data'' \<notin> set ys \<longrightarrow> linkages_data_of (JList ys) = Inr [])"
proof (intro conjI impI)
  assume a: "map_of kvs ''array'' = Some (JList xs)"
  then have ne: "kvs \<noteq> []" by auto
  from a ne show "linkages_data_of (JDict kvs) = Inr xs"
    by (simp add: linkages_data_of_def)
  from a ne show "attributes_data_of (JDict kvs) = Inr (if xs = [] then None else Some (JList xs))"
    by (simp add: attributes_data_of_def)
next
  assume a: "map_of kvs ''array'' = None \<and> map_of kvs ''data'' = Some (JDict d) \<and>
    map_of d ''array'' = Some (JList xs)"
  then have ne: "kvs \<noteq> []" by auto
  from a ne show "linkages_data_of (JDict kvs) = Inr xs"
    by (simp add: linkages_data_of_def)
  from a ne show "attributes_data_of (JDict kvs) = Inr (if xs = [] then None else Some (JList xs))"
    by (simp add: attributes_data_of_def)
next
  assume a: "map_of kvs ''array'' = None \<and> map_of kvs ''data'' = Some (JList xs) \<and>
    JStr ''array'' \<notin> set xs"
  then have ne: "kvs \<noteq> []" by auto
  from a ne show "linkages_data_of (JDict kvs) = Inr xs"
    by (simp add: linkages_data_of_def)
  from a ne show "attributes_data_of (JDict kvs) = Inr (if xs = [] then None else Some (JList xs))"
    by (simp add: attributes_data_of_def)
next
  assume a: "map_of kvs ''array'' = None \<and> map_of kvs ''data'' = None"
  then show "linkages_data_of (JDict kvs) = Inr []"
    by (simp add: linkages_data_of_def)
  from a show "attributes_data_of (JDict kvs) = Inr None"
    by (simp add: attributes_data_of_def)
next
  assume a: "map_of kvs ''array'' = Some v \<and> \<not> is_list v"
  then have ne: "kvs \<noteq> []" by auto
  from a ne show "linkages_data_of (JDict kvs) = Inr []"
    by (cases v) (simp_all add: linkages_data_of_def)
next
  assume "JStr ''array'' \<notin> set ys \<and> JStr ''data'' \<notin> set ys"
  then show "linkages_data_of (JList ys) = Inr []"
    by (simp add: linkages_data_of_def)
qed

theorem envelope_key_priority_witness:
  "linkages_data_of (JDict [(''array'', JList [JDict [(''a'', JInt 1)]])])
     = Inr [JDict [(''a'', JInt 1)]] \<and>
   linkages_data_of (JDict [(''data'', JDict [(''array'', JList [JDict [(''a'', JInt 1)]])])])
     = Inr [JDict [(''a'', JInt 1)]] \<and>
   attributes_data_of (JDict [(''data'', JList [JDict [(''a'', JInt 1)]])])
     = Inr (Some (JList [JDict [(''a'', JInt 1)]])) \<and>
   linkages_data_of (JDict [(''status'', JInt 200)]) = Inr [] \<and>
   linkages_data_of (JDict [(''array'', JInt 5), (''data'', JList [JDict [(''a'', JInt 1)]])])
     = Inr [] \<and>
   linkages_data_of (JList [JDict [(''a'', JInt 1)]]) = Inr []"
  using envelope_key_priority
      [where kvs = "[(''array'', JList [JDict [(''a'', JInt 1)]])]"
         and xs = "[JDict [(''a'', JInt 1)]]" and v = JNull and ys = "[]"]
    envelope_key_priority
      [where kvs = "[(''data'', JDict [(''array'', JList [JDict [(''a'', JInt 1)]])])]"
         and d = "[(''array'', JList [JDict [(''a'', JInt 1)]])]"
         and xs = "[JDict [(''a'', JInt 1)]]" and v = JNull and ys = "[]"]
    envelope_key_priority
      [where kvs = "[(''data'', JList [JDict [(''a'', JInt 1)]])]"
         and xs = "[JDict [(''a'', JInt 1)]]" and v = JNull and ys = "[]"]
    envelope_key_priority
      [where kvs = "[(''status'', JInt 200)]" and xs = "[]" and v = JNull and ys = "[]"]
    envelope_key_priority
      [where kvs = "[(''array'', JInt 5), (''data'', JList [JDict [(''a'', JInt 1)]])]"
         and xs = "[]" and v = "JInt 5" and ys = "[JDict [(''a'', JInt 1)]]"]
  by simp

text \<open>
  The claim as it is stated fails: a response that is itself a list of records yields no
  records in \<open>process_vehicle_linkages\<close> and an \<open>AttributeError\<close> in
  \<open>process_attributes_data\<close>; a response whose \<open>array\<close> holds no list is not searched
  further for the list under \<open>data\<close>; and a response that matches no form can raise.
\<close>

theorem envelope_direct_list_counterexample:
  "linkages_data_of (JList [JDict [(''a'', JInt 1)]]) = Inr [] \<and>
   attributes_data_of (JList [JDict [(''a'', JInt 1)]]) = Inl AttributeError \<and>
   linkages_data_of
     (JDict [(''array'', JStr ''n/a''), (''data'', JList [JDict [(''a'', JInt 1)]])]) = Inr [] \<and>
   linkages_data_of (JDict [(''data'', JNull)]) = Inl TypeError"
  by (simp add: linkages_data_of_def attributes_data_of_def)

subsection \<open>Vehicles without a correlation hint\<close>

lemma tag_vehicle_hint:
  "tag_vehicle a l raw = Inr v \<Longrightarrow>
   \<exists>kvs. raw = JDict kvs \<and>
     linking_target_id_of v = py_or l (dict_get kvs ''carId'' (JStr [])) \<and>
     construction_type_of v = dict_get kvs ''constructionType'' (JStr [])"
  by (cases raw)
     (auto simp: tag_vehicle_def linking_target_id_of_def construction_type_of_def Let_def
        dict_get_dict_set)

lemma pending_jd_set:
  "mset (concat (map snd
      (jd_set k ((case jd_lookup d k of None \<Rightarrow> [] | Some l \<Rightarrow> l) @ [i]) d))) =
   mset (concat (map snd d)) + {#i#}"
  by (induction d) auto

lemma store_vehicle_effect:
  assumes "store_vehicle aid st v = Inr st'"
  shows "vehicles st' =
           vehicles st @ (if truthy (linking_target_id_of v) then [] else [vehicle_row_of aid v])"
    and "mset (pending st') = mset (pending st) +
           mset (if truthy (linking_target_id_of v) then [vehicle_info_of aid v] else [])"
  using assms
  by (auto simp: store_vehicle_def Let_def pending_def pending_jd_set split: if_splits)

lemma store_vehicles_effect:
  "store_vehicles aid st vs = Inr st' \<Longrightarrow>
   vehicles st' = vehicles st @
       map (vehicle_row_of aid) (filter (\<lambda>v. \<not> truthy (linking_target_id_of v)) vs) \<and>
   mset (pending st') = mset (pending st) +
       mset (map (vehicle_info_of aid) (filter (\<lambda>v. truthy (linking_target_id_of v)) vs))"
proof (induction vs arbitrary: st)
  case Nil
  then show ?case by simp
next
  case (Cons v vs)
  from Cons.prems obtain st1 where s1: "store_vehicle aid st v = Inr st1"
    and s2: "store_vehicles aid st1 vs = Inr st'"
    by (auto simp: and_then_Inr)
  from Cons.IH [OF s2] store_vehicle_effect [OF s1] show ?case by simp
qed

lemma example_linkages_processed:
  "process_vehicle_linkages 4711 example_linkages \<lparr>vehicles = [], vehicle_lookup = []\<rparr> =
   Inr \<lparr>vehicles =
          [\<lparr>article_id = 4711, vehicle_mfr_name = JStr ''FIAT'', model_series_name = JStr [],
            type_name = JStr ''Uno 45'', year_from = [], year_to = [], engine_cc = [],
            power_hp = [], fuel_type = JStr [], body_style = JStr ''Saloon'',
            drive_type = JStr [], kba_numbers = [], engine_code = [],
            other_restrictions = []\<rparr>],
        vehicle_lookup =
          [(JInt 9001,
            [\<lparr>row = \<lparr>article_id = 4711, vehicle_mfr_name = JStr ''FIAT'',
                     model_series_name = JStr ''PANDA (169_)'', type_name = JStr ''Panda 1.2'',
                     year_from = ''2003-09'', year_to = [], engine_cc = ''1242'',
                     power_hp = ''69'', fuel_type = JStr [], body_style = JStr ''Hatchback'',
                     drive_type = JStr [], kba_numbers = [], engine_code = [],
                     other_restrictions = []\<rparr>,
              mfr_id = JInt 7, mfr_name = JStr ''FIAT'',
              construction_type = JStr ''Hatchback''\<rparr>])]\<rparr>"
  by (simp add: process_vehicle_linkages_def example_linkages_def linkages_data_of_def
      linked_vehicles_of_def tag_vehicle_def Let_def dict_get_def store_vehicle_def
      linking_target_id_of_def py_or_def vehicle_row_of_def vehicle_info_of_def
      construction_type_of_def power_hp_of_def format_year_month_def isdigit_def
      is_digit_char_def str_int_def str_nat.simps)

text \<open>
  Claim C10. After \<open>process_vehicle_linkages\<close> the output list has grown by exactly
  the rows of the linked vehicles without a correlation hint, one row each, in their
  order, and the provisional index has grown by exactly the entries of the vehicles with
  a hint: a vehicle without a hint is never put in the index. The hint of a linked
  vehicle is the \<open>linkingTargetId\<close> of its item or else its own \<open>carId\<close>, and a
  row is built with its enrichment fields empty.
\<close>

theorem hintless_vehicle_bypasses_index:
  "(process_vehicle_linkages aid linkages_response st = Inr st' \<longrightarrow>
      (\<exists>linkages_data actual_vehicles.
         linkages_data_of linkages_response = Inr linkages_data \<and>
         collect_vehicles linkages_data = Inr actual_vehicles \<and>
         vehicles st' = vehicles st @ map (vehicle_row_of aid)
            (filter (\<lambda>v. \<not> truthy (linking_target_id_of v)) actual_vehicles) \<and>
         mset (pending st') = mset (pending st) + mset (map (vehicle_info_of aid)
            (filter (\<lambda>v. truthy (linking_target_id_of v)) actual_vehicles)))) \<and>
   (tag_vehicle article_link_id linking_target_id raw = Inr v \<longrightarrow>
      (\<exists>kvs. raw = JDict kvs \<and>
         linking_target_id_of v = py_or linking_target_id (dict_get kvs ''carId'' (JStr [])))) \<and>
   fuel_type (vehicle_row_of aid v) = JStr [] \<and> drive_type (vehicle_row_of aid v) = JStr [] \<and>
   kba_numbers (vehicle_row_of aid v) = [] \<and> engine_code (vehicle_row_of aid v) = [] \<and>
   other_restrictions (vehicle_row_of aid v) = []"
proof (intro conjI impI)
  assume "process_vehicle_linkages aid linkages_response st = Inr st'"
  then obtain linkages_data actual_vehicles where
    "linkages_data_of linkages_response = Inr linkages_data"
    "collect_vehicles linkages_data = Inr actual_vehicles"
    "store_vehicles aid st actual_vehicles = Inr st'"
    by (auto simp: process_vehicle_linkages_def and_then_Inr)
  with store_vehicles_effect [of aid st actual_vehicles st']
  show "\<exists>linkages_data actual_vehicles.
         linkages_data_of linkages_response = Inr linkages_data \<and>
         collect_vehicles linkages_data = Inr actual_vehicles \<and>
         vehicles st' = vehicles st @ map (vehicle_row_of aid)
            (filter (\<lambda>v. \<not> truthy (linking_target_id_of v)) actual_vehicles) \<and>
         mset (pending st') = mset (pending st) + mset (map (vehicle_info_of aid)
            (filter (\<lambda>v. truthy (linking_target_id_of v)) actual_vehicles))"
    by blast
next
  assume "tag_vehicle article_link_id linking_target_id raw = Inr v"
  from tag_vehicle_hint [OF this]
  show "\<exists>kvs. raw = JDict kvs \<and>
         linking_target_id_of v = py_or linking_target_id (dict_get kvs ''carId'' (JStr []))"
    by blast
qed (simp_all add: vehicle_row_of_def)

theorem hintless_vehicle_bypasses_index_witness:
  "(\<exists>st'. process_vehicle_linkages 4711 example_linkages \<lparr>vehicles = [], vehicle_lookup = []\<rparr>
            = Inr st' \<and>
      map type_name (vehicles st') = [JStr ''Uno 45''] \<and>
      map (\<lambda>i. type_name (row i)) (pending st') = [JStr ''Panda 1.2'']) \<and>
   tag_vehicle (JInt 2) (JStr []) (JDict [(''manuId'', JInt 7)]) =
     Inr [(''manuId'', JInt 7), (''_articleLinkId'', JInt 2), (''_linkingTargetId'', JStr []),
          (''_constructionType'', JStr [])] \<and>
   linking_target_id_of
     [(''manuId'', JInt 7), (''_articleLinkId'', JInt 2), (''_linkingTargetId'', JStr []),
      (''_constructionType'', JStr [])] = JStr []"
  using example_linkages_processed
    hintless_vehicle_bypasses_index
      [where aid = 4711 and linkages_response = example_linkages
         and st = "\<lparr>vehicles = [], vehicle_lookup = []\<rparr>"
         and article_link_id = "JInt 2" and linking_target_id = "JStr []"
         and raw = "JDict [(''manuId'', JInt 7)]"
         and v = "[(''manuId'', JInt 7), (''_articleLinkId'', JInt 2),
                   (''_linkingTargetId'', JStr []), (''_constructionType'', JStr [])]"]
  by (simp add: pending_def tag_vehicle_def dict_get_def py_or_def linking_target_id_of_def)

subsection \<open>The paginated collector\<close>

lemma fetch_pages_stub:
  assumes stub: "\<forall>p. make_request p = JDict [(''total'', JInt t), (''linkageTargets'', JList [r p])]"
  shows "page \<le> 501 \<Longrightarrow> returned + int (501 - page) \<le> total' \<Longrightarrow>
     fetch_pages make_request total' returned page (JList xs) requested =
       Inr (JList (xs @ map r [page..<501]), requested @ [page..<501])"
proof (induction "501 - page" arbitrary: page returned xs requested)
  case 0
  then have "page = 501" by simp
  then show ?case by (subst fetch_pages.simps) simp
next
  case (Suc n)
  then have le: "page \<le> 500" and lt: "returned < total'" by auto
  have step: "fetch_pages make_request total' (returned + 1) (Suc page) (JList (xs @ [r page]))
          (requested @ [page]) =
        Inr (JList ((xs @ [r page]) @ map r [Suc page..<501]), (requested @ [page]) @ [Suc page..<501])"
    using Suc by (intro Suc.hyps(1)) auto
  have upt: "[page..<501] = page # [Suc page..<501]"
    using le by (simp add: upt_conv_Cons)
  show ?case
    using le lt step
    by (subst fetch_pages.simps) (simp add: stub py_extend_def upt)
qed

lemma get_linkage_targets_stub:
  assumes stub: "\<forall>p. make_request p = JDict [(''total'', JInt t), (''linkageTargets'', JList [r p])]"
    and big: "500 \<le> t"
  shows "get_linkage_targets make_request =
     Inr (JDict [(''total'', JInt t), (''linkageTargets'', JList (map r [1..<501]))], [1..<501])"
proof -
  have "fetch_pages make_request t 1 2 (JList [r 1]) [1] =
       Inr (JList ([r 1] @ map r [2..<501]), [1] @ [2..<501])"
    using big by (intro fetch_pages_stub [OF stub]) auto
  moreover have "[1..<501] = 1 # [2..<501]"
    using upt_conv_Cons [of 1 501] by (simp add: numeral_2_eq_2 del: upt_rec_numeral)
  ultimately show ?thesis
    using big by (simp add: get_linkage_targets_def stub dict_get_def del: upt_rec_numeral)
qed

lemma fetch_pages_requests:
  "fetch_pages make_request total' returned page all_targets requested = Inr (a, q) \<Longrightarrow>
   page \<le> 501 \<Longrightarrow> \<exists>k. q = requested @ [page..<page + k] \<and> page + k \<le> 501"
proof (induction make_request total' returned page all_targets requested rule: fetch_pages.induct)
  case (1 make_request total' returned page all_targets requested)
  show ?case
  proof (cases "returned < total' \<and> page \<le> 500")
    case False
    with "1.prems" have "q = requested" by (subst (asm) fetch_pages.simps) simp
    then show ?thesis using "1.prems" by (intro exI [of _ 0]) simp
  next
    case True
    from "1.prems"(1) True obtain present where
      p: "(if truthy (make_request page)
           then py_contains ''linkageTargets'' (make_request page) else Inr False) = Inr present"
      and rest: "(if present then
               and_then (py_get (make_request page) ''linkageTargets'' (JList []))
                 (\<lambda>page_targets.
               and_then (py_len page_targets) (\<lambda>n.
                 if n = 0 then Inr (all_targets, requested @ [page])
                 else
                   and_then (py_extend all_targets page_targets) (\<lambda>extended.
                     fetch_pages make_request total' (returned + int n) (Suc page) extended
                       (requested @ [page]))))
             else Inr (all_targets, requested @ [page])) = Inr (a, q)"
      by (subst (asm) fetch_pages.simps) (auto simp: and_then_Inr)
    have one: "[page..<page + 1] = [page]" by simp
    show ?thesis
    proof (cases present)
      case False
      with rest have "q = requested @ [page]" by simp
      with True one show ?thesis by (intro exI [of _ 1]) simp
    next
      case present: True
      with rest obtain page_targets n where
        g: "py_get (make_request page) ''linkageTargets'' (JList []) = Inr page_targets"
        and l: "py_len page_targets = Inr n"
        and rest2: "(if n = 0 then Inr (all_targets, requested @ [page])
                 else
                   and_then (py_extend all_targets page_targets) (\<lambda>extended.
                     fetch_pages make_request total' (returned + int n) (Suc page) extended
                       (requested @ [page]))) = Inr (a, q)"
        by (auto simp: and_then_Inr)
      show ?thesis
      proof (cases "n = 0")
        case True
        with rest2 have "q = requested @ [page]" by simp
        with \<open>returned < total' \<and> page \<le> 500\<close> one show ?thesis by (intro exI [of _ 1]) simp
      next
        case False
        with rest2 obtain extended where
          e: "py_extend all_targets page_targets = Inr extended"
          and r: "fetch_pages make_request total' (returned + int n) (Suc page) extended
                       (requested @ [page]) = Inr (a, q)"
          by (auto simp: and_then_Inr)
        from True have "Suc page \<le> 501" by simp
        from "1.IH" [OF True p present g l False e r this]
        obtain k where "q = (requested @ [page]) @ [Suc page..<Suc page + k]"
          and "Suc page + k \<le> 501" by blast
        then have "q = requested @ [page..<page + Suc k] \<and> page + Suc k \<le> 501"
          by (simp add: upt_conv_Cons)
        then show ?thesis by blast
      qed
    qed
  qed
qed

lemma get_linkage_targets_requests:
  assumes "get_linkage_targets make_request = Inr (response, q)"
  shows "q = [1..<Suc (length q)] \<and> length q \<le> 500"
proof -
  have base: "[1] = [1..<Suc (length [1::nat])]" by simp
  consider (one) "q = [1]"
    | (loop) t ret acc a where "fetch_pages make_request t ret 2 acc [1] = Inr (a, q)"
    using assms
    by (auto simp: get_linkage_targets_def Let_def and_then_Inr
        split: if_splits json.splits option.splits)
  then show ?thesis
  proof cases
    case one
    then show ?thesis by simp
  next
    case loop
    from fetch_pages_requests [OF loop] obtain k where
      q: "q = [1] @ [2..<2 + k]" and k: "2 + k \<le> 501" by auto
    have "[1] @ [2..<2 + k] = [1..<2 + k]" by (simp add: upt_conv_Cons numeral_2_eq_2)
    with q have "q = [1..<2 + k]" by simp
    with k show ?thesis by simp
  qed
qed

lemma fetch_pages_stops:
  assumes "returned < total'" "page \<le> 500"
    and "\<not> truthy (make_request page) \<or>
         py_contains ''linkageTargets'' (make_request page) = Inr False \<or>
         (py_contains ''linkageTargets'' (make_request page) = Inr True \<and>
          (\<exists>v. py_get (make_request page) ''linkageTargets'' (JList []) = Inr v \<and> py_len v = Inr 0))"
  shows "fetch_pages make_request total' returned page all_targets requested =
           Inr (all_targets, requested @ [page])"
  using assms by (subst fetch_pages.simps) auto

lemma dict_set_same: "map_of d k = Some v \<Longrightarrow> dict_set k v d = d"
  by (induction d) (auto split: if_splits)

lemma get_linkage_targets_second_page_stops:
  assumes first: "make_request 1 = JDict kvs"
    and targets: "map_of kvs ''linkageTargets'' = Some (JList xs)" "xs \<noteq> []"
    and total: "map_of kvs ''total'' = Some (JInt t)" "int (length xs) < t"
    and stop: "\<not> truthy (make_request 2) \<or>
         py_contains ''linkageTargets'' (make_request 2) = Inr False \<or>
         (py_contains ''linkageTargets'' (make_request 2) = Inr True \<and>
          (\<exists>v. py_get (make_request 2) ''linkageTargets'' (JList []) = Inr v \<and> py_len v = Inr 0))"
  shows "get_linkage_targets make_request = Inr (JDict kvs, [1, 2])"
proof -
  have "fetch_pages make_request t (int (length xs)) 2 (JList xs) [1] = Inr (JList xs, [1] @ [2])"
    using total stop by (intro fetch_pages_stops) auto
  moreover from targets have "kvs \<noteq> []" by auto
  ultimately show ?thesis
    using first targets total
    by (simp add: get_linkage_targets_def dict_get_def dict_set_same)
qed

text \<open>
  Claim C5. A stub that answers every page with one record and a declared total of
  100000 is asked for the pages 1 to 500 and no more, and the response holds the 500
  records in page order. Whatever the upstream answers, the pages requested are
  1, 2, ..., k with k at most 500, each once: no page is requested a second time. In the
  loop, a page whose request failed (a false body), a body without \<open>linkageTargets\<close>
  or a page with zero records ends the loop with the records accumulated so far and no
  error; seen from the caller, a first page with fewer records than the total followed
  by such a second page returns the first response as it is.
\<close>

theorem pagination_ceiling_and_stops:
  "((\<forall>p. make_request p =
          JDict [(''total'', JInt 100000), (''linkageTargets'', JList [r p])]) \<longrightarrow>
      get_linkage_targets make_request =
        Inr (JDict [(''total'', JInt 100000), (''linkageTargets'', JList (map r [1..<501]))],
             [1..<501]) \<and>
      length (map r [1..<501]) = 500) \<and>
   (get_linkage_targets make_request = Inr (response, q) \<longrightarrow>
      q = [1..<Suc (length q)] \<and> length q \<le> 500) \<and>
   (returned < total' \<and> page \<le> 500 \<and>
    (\<not> truthy (make_request page) \<or>
     py_contains ''linkageTargets'' (make_request page) = Inr False \<or>
     (py_contains ''linkageTargets'' (make_request page) = Inr True \<and>
      (\<exists>v. py_get (make_request page) ''linkageTargets'' (JList []) = Inr v \<and>
           py_len v = Inr 0))) \<longrightarrow>
      fetch_pages make_request total' returned page all_targets requested =
        Inr (all_targets, requested @ [page])) \<and>
   (make_request 1 = JDict kvs \<and> map_of kvs ''linkageTargets'' = Some (JList xs) \<and>
    xs \<noteq> [] \<and> map_of kvs ''total'' = Some (JInt t) \<and> int (length xs) < t \<and>
    (\<not> truthy (make_request 2) \<or>
     py_contains ''linkageTargets'' (make_request 2) = Inr False \<or>
     (py_contains ''linkageTargets'' (make_request 2) = Inr True \<and>
      (\<exists>v. py_get (make_request 2) ''linkageTargets'' (JList []) = Inr v \<and>
           py_len v = Inr 0))) \<longrightarrow>
      get_linkage_targets make_request = Inr (JDict kvs, [1, 2]))"
proof (intro conjI impI)
  assume "\<forall>p. make_request p =
          JDict [(''total'', JInt 100000), (''linkageTargets'', JList [r p])]"
  then show "get_linkage_targets make_request =
        Inr (JDict [(''total'', JInt 100000), (''linkageTargets'', JList (map r [1..<501]))],
             [1..<501])"
    by (rule get_linkage_targets_stub) simp
next
  show "length (map r [1..<501]) = 500" by simp
next
  assume "get_linkage_targets make_request = Inr (response, q)"
  from get_linkage_targets_requests [OF this]
  show "q = [1..<Suc (length q)]" and "length q \<le> 500" by simp_all
next
  assume "returned < total' \<and> page \<le> 500 \<and>
    (\<not> truthy (make_request page) \<or>
     py_contains ''linkageTargets'' (make_request page) = Inr False \<or>
     (py_contains ''linkageTargets'' (make_request page) = Inr True \<and>
      (\<exists>v. py_get (make_request page) ''linkageTargets'' (JList []) = Inr v \<and>
           py_len v = Inr 0)))"
  then show "fetch_pages make_request total' returned page all_targets requested =
        Inr (all_targets, requested @ [page])"
    by (intro fetch_pages_stops) blast+
next
  assume "make_request 1 = JDict kvs \<and> map_of kvs ''linkageTargets'' = Some (JList xs) \<and>
    xs \<noteq> [] \<and> map_of kvs ''total'' = Some (JInt t) \<and> int (length xs) < t \<and>
    (\<not> truthy (make_request 2) \<or>
     py_contains ''linkageTargets'' (make_request 2) = Inr False \<or>
     (py_contains ''linkageTargets'' (make_request 2) = Inr True \<and>
      (\<exists>v. py_get (make_request 2) ''linkageTargets'' (JList []) = Inr v \<and>
           py_len v = Inr 0)))"
  then show "get_linkage_targets make_request = Inr (JDict kvs, [1, 2])"
    by (intro get_linkage_targets_second_page_stops) blast+
qed

theorem pagination_ceiling_and_stops_witness:
  "get_linkage_targets one_record_per_page =
     Inr (JDict [(''total'', JInt 100000),
                 (''linkageTargets'',
                  JList (map (\<lambda>p. JDict [(''linkageTargetId'', JInt (int p))]) [1..<501]))],
          [1..<501]) \<and>
   length [1..<501::nat] = 500 \<and>
   fetch_pages second_page_fails 250 1 2 (JList [JDict [(''linkageTargetId'', JInt 1)]]) [1] =
     Inr (JList [JDict [(''linkageTargetId'', JInt 1)]], [1, 2]) \<and>
   get_linkage_targets second_page_fails =
     Inr (JDict [(''total'', JInt 250),
                 (''linkageTargets'', JList [JDict [(''linkageTargetId'', JInt 1)]])], [1, 2])"
  using
    pagination_ceiling_and_stops
      [where make_request = one_record_per_page
         and r = "\<lambda>p. JDict [(''linkageTargetId'', JInt (int p))]"
         and q = "[1..<501]" and returned = 1 and total' = 0 and page = 2
         and kvs = "[]" and xs = "[]"
         and response = "JDict [(''total'', JInt 100000),
                 (''linkageTargets'',
                  JList (map (\<lambda>p. JDict [(''linkageTargetId'', JInt (int p))]) [1..<501]))]"]
    pagination_ceiling_and_stops
      [where make_request = second_page_fails and returned = 1 and total' = 250 and page = 2
         and all_targets = "JList [JDict [(''linkageTargetId'', JInt 1)]]" and requested = "[1]"
         and kvs = "[(''total'', JInt 250),
                 (''linkageTargets'', JList [JDict [(''linkageTargetId'', JInt 1)]])]"
         and xs = "[JDict [(''linkageTargetId'', JInt 1)]]" and t = 250]
  by (simp add: one_record_per_page_def second_page_fails_def)

subsection \<open>The correlator: direct matches\<close>










subsection \<open>The correlator: records without a match\<close>










subsection \<open>The correlator: the description tier\<close>

lemma startswith_iff: "startswith s p \<longleftrightarrow> (\<exists>r. s = p @ r)"
proof
  assume "startswith s p"
  then have "s = p @ drop (length p) s"
    by (metis append_take_drop_id startswith_def)
  then show "\<exists>r. s = p @ r" ..
next
  assume "\<exists>r. s = p @ r"
  then show "startswith s p" by (auto simp: startswith_def)
qed

lemma str_in_iff: "str_in a b \<longleftrightarrow> (\<exists>p s. b = p @ a @ s)"
proof (induction b)
  case Nil
  show ?case by simp
next
  case (Cons c cs)
  show ?case
  proof
    assume "str_in a (c # cs)"
    then consider "startswith (c # cs) a" | "str_in a cs" by auto
    then show "\<exists>p s. c # cs = p @ a @ s"
    proof cases
      case 1
      then obtain r where "c # cs = a @ r" by (auto simp: startswith_iff)
      then have "c # cs = [] @ a @ r" by simp
      then show ?thesis by blast
    next
      case 2
      with Cons obtain p s where "cs = p @ a @ s" by blast
      then have "c # cs = (c # p) @ a @ s" by simp
      then show ?thesis by blast
    qed
  next
    assume "\<exists>p s. c # cs = p @ a @ s"
    then obtain p s where e: "c # cs = p @ a @ s" by blast
    show "str_in a (c # cs)"
    proof (cases p)
      case Nil
      with e have "startswith (c # cs) a" by (auto simp: startswith_iff)
      then show ?thesis by simp
    next
      case (Cons x p')
      with e have "cs = p' @ a @ s" by simp
      then have "str_in a cs" using Cons.IH by blast
      then show ?thesis by simp
    qed
  qed
qed

lemma scan_by_desc_step:
  "scan_by_desc ((k, first # others) # rest) key_prefix tname hpower = Inr (Some t) \<Longrightarrow>
   (t = first \<and> startswith k key_prefix \<and>
    (\<exists>target_desc hp. py_get first ''description'' (JStr []) = Inr target_desc \<and>
       desc_matches tname target_desc = Inr True \<and> 5 < length tname \<and>
       py_get first ''horsePowerFrom'' (JStr []) = Inr hp \<and>
       (hpower = py_str hp \<or> py_str hp = []))) \<or>
   scan_by_desc rest key_prefix tname hpower = Inr (Some t)"
  by (auto simp: and_then_Inr split: if_splits)

lemma scan_by_desc_accepts:
  "scan_by_desc idx key_prefix tname hpower = Inr (Some t) \<Longrightarrow>
   \<exists>lookup_key others target_desc hp.
     (lookup_key, t # others) \<in> set idx \<and> startswith lookup_key key_prefix \<and>
     py_get t ''description'' (JStr []) = Inr target_desc \<and>
     desc_matches tname target_desc = Inr True \<and> 5 < length tname \<and>
     py_get t ''horsePowerFrom'' (JStr []) = Inr hp \<and>
     (hpower = py_str hp \<or> py_str hp = [])"
proof (induction idx)
  case Nil
  then show ?case by simp
next
  case (Cons e rest)
  obtain k ts where e: "e = (k, ts)" by (cases e)
  show ?case
  proof (cases ts)
    case Nil
    with Cons.prems e have "scan_by_desc rest key_prefix tname hpower = Inr (Some t)" by simp
    from Cons.IH [OF this] show ?thesis by auto
  next
    case (Cons first others)
    with Cons.prems e
    have "scan_by_desc ((k, first # others) # rest) key_prefix tname hpower = Inr (Some t)"
      by simp
    from scan_by_desc_step [OF this] show ?thesis
    proof
      assume "t = first \<and> startswith k key_prefix \<and>
        (\<exists>target_desc hp. py_get first ''description'' (JStr []) = Inr target_desc \<and>
           desc_matches tname target_desc = Inr True \<and> 5 < length tname \<and>
           py_get first ''horsePowerFrom'' (JStr []) = Inr hp \<and>
           (hpower = py_str hp \<or> py_str hp = []))"
      with e Cons show ?thesis by auto
    next
      assume "scan_by_desc rest key_prefix tname hpower = Inr (Some t)"
      from Cons.IH [OF this] show ?thesis by auto
    qed
  qed
qed

text \<open>
  Claim C7, as the code has it. The partial-match loop accepts a detail only when it is
  the first detail under an index key that starts with the manufacturer id and an
  underscore, its description contains the source's type name or is contained in it, the
  source's type name is longer than 5 characters, and the text of its power rating equals
  the source's power rating or is empty. The length guard is on the type name of the
  source, not on the description of the detail.
\<close>

theorem partial_match_guards:
  "(scan_by_desc idx key_prefix tname hpower = Inr (Some t) \<longrightarrow>
      (\<exists>lookup_key others target_desc hp.
         (lookup_key, t # others) \<in> set idx \<and> startswith lookup_key key_prefix \<and>
         py_get t ''description'' (JStr []) = Inr target_desc \<and>
         desc_matches tname target_desc = Inr True \<and> 5 < length tname \<and>
         py_get t ''horsePowerFrom'' (JStr []) = Inr hp \<and>
         (hpower = py_str hp \<or> py_str hp = []))) \<and>
   desc_matches tname (JStr d) =
     Inr ((\<exists>p s. d = p @ tname @ s) \<or> (\<exists>p s. tname = p @ d @ s))"
proof (intro conjI impI)
  assume "scan_by_desc idx key_prefix tname hpower = Inr (Some t)"
  then show "\<exists>lookup_key others target_desc hp.
         (lookup_key, t # others) \<in> set idx \<and> startswith lookup_key key_prefix \<and>
         py_get t ''description'' (JStr []) = Inr target_desc \<and>
         desc_matches tname target_desc = Inr True \<and> 5 < length tname \<and>
         py_get t ''horsePowerFrom'' (JStr []) = Inr hp \<and>
         (hpower = py_str hp \<or> py_str hp = [])"
    by (rule scan_by_desc_accepts)
next
  show "desc_matches tname (JStr d) =
     Inr ((\<exists>p s. d = p @ tname @ s) \<or> (\<exists>p s. tname = p @ d @ s))"
    using str_in_iff [of tname d] str_in_iff [of d tname]
    by (auto simp: desc_matches_def)
qed

lemma example_scan_long:
  "scan_by_desc [(''7_Panda 1.2 Dynamic'', [detail_long])] ''7_'' ''Panda 1.2'' ''69'' =
   Inr (Some detail_long)"
  by (simp add: detail_long_def startswith_def desc_matches_def str_int_def str_nat.simps)

theorem partial_match_guards_witness:
  "scan_by_desc [(''7_Panda 1.2 Dynamic'', [detail_long])] ''7_'' ''Panda 1.2'' ''69'' =
     Inr (Some detail_long) \<and>
   (\<exists>target_desc hp.
      py_get detail_long ''description'' (JStr []) = Inr target_desc \<and>
      desc_matches ''Panda 1.2'' target_desc = Inr True \<and>
      py_get detail_long ''horsePowerFrom'' (JStr []) = Inr hp \<and>
      (''69'' = py_str hp \<or> py_str hp = [])) \<and>
   5 < length ''Panda 1.2''"
  using partial_match_guards
      [where idx = "[(''7_Panda 1.2 Dynamic'', [detail_long])]" and key_prefix = "''7_''"
         and tname = "''Panda 1.2''" and hpower = "''69''" and t = detail_long]
    example_scan_long
  by auto

text \<open>
  The claim as it is stated fails: a detail whose description has three characters is
  accepted for a source with a long type name, and a detail with a long description is
  not accepted for a source whose type name has five characters, although the description
  contains the type name and the power ratings agree.
\<close>

theorem partial_match_short_description_counterexample:
  "build_indexes [detail_short] ([], []) = Inr ([(''7_1.2'', [detail_short])], []) \<and>
   py_get detail_short ''description'' (JStr []) = Inr (JStr ''1.2'') \<and>
   match_by_desc [(''7_1.2'', [detail_short])] (JInt 7) ''Panda 1.2'' ''69'' =
     Inr detail_short \<and>
   py_get detail_long ''description'' (JStr []) = Inr (JStr ''Panda 1.2 Dynamic'') \<and>
   match_by_desc [(''7_Panda 1.2 Dynamic'', [detail_long])] (JInt 7) ''Panda'' ''69'' =
     Inr (JDict [])"
  by (simp add: detail_short_def detail_long_def index_target_def py_strip_def strip_def
      is_space_def dict_get_def dict_append_def desc_key_def str_int_def str_nat.simps
      Let_def match_by_desc_def startswith_def desc_matches_def)

subsection \<open>The correlator: first inserted detail only\<close>

lemma dict_set_keys:
  "map fst (dict_set k v d) = (if k \<in> fst ` set d then map fst d else map fst d @ [k])"
  by (induction d) auto

lemma dict_set_distinct: "distinct (map fst d) \<Longrightarrow> distinct (map fst (dict_set k v d))"
  by (simp add: dict_set_keys)

lemma entries_dict_append:
  "entries (dict_append k v d) k' = (if k' = k then entries d k @ [v] else entries d k')"
  by (simp add: entries_def dict_append_def map_of_dict_set)

lemma dict_append_distinct:
  "distinct (map fst d) \<Longrightarrow> distinct (map fst (dict_append k v d))"
  by (simp add: dict_append_def dict_set_distinct)

lemma index_target_desc:
  assumes "index_target target idx = Inr idx'"
  shows "entries (fst idx') k =
           entries (fst idx) k @ (if desc_index_key target = Some k then [target] else [])"
    and "distinct (map fst (fst idx)) \<Longrightarrow> distinct (map fst (fst idx'))"
proof -
  from assms obtain kvs where t: "target = JDict kvs"
    by (cases target) (simp_all add: index_target_def)
  from assms t obtain desc where
    d: "py_strip (dict_get kvs ''description'' (JStr [])) = Inr desc"
    and f: "fst idx' =
      (if desc \<noteq> [] \<and> truthy (dict_get kvs ''mfrId'' (JStr []))
       then dict_append (desc_key (dict_get kvs ''mfrId'' (JStr [])) desc) target (fst idx)
       else fst idx)"
    by (auto simp: index_target_def Let_def and_then_Inr)
  have key: "desc_index_key target =
      (if desc \<noteq> [] \<and> truthy (dict_get kvs ''mfrId'' (JStr []))
       then Some (desc_key (dict_get kvs ''mfrId'' (JStr [])) desc) else None)"
    by (simp add: desc_index_key_def t d)
  show "entries (fst idx') k =
           entries (fst idx) k @ (if desc_index_key target = Some k then [target] else [])"
    by (auto simp: f key entries_dict_append)
  show "distinct (map fst (fst idx)) \<Longrightarrow> distinct (map fst (fst idx'))"
    by (simp add: f dict_append_distinct)
qed

lemma build_indexes_desc:
  "build_indexes targets idx = Inr idx' \<Longrightarrow>
   entries (fst idx') k = entries (fst idx) k @ filter (\<lambda>d. desc_index_key d = Some k) targets \<and>
   (distinct (map fst (fst idx)) \<longrightarrow> distinct (map fst (fst idx')))"
proof (induction targets arbitrary: idx)
  case Nil
  then show ?case by simp
next
  case (Cons target rest)
  from Cons.prems obtain mid where m: "index_target target idx = Inr mid"
    and r: "build_indexes rest mid = Inr idx'"
    by (auto simp: and_then_Inr)
  from Cons.IH [OF r] index_target_desc(1) [OF m, of k] index_target_desc(2) [OF m]
  show ?case by auto
qed

lemma filter_head_find: "filter P xs = t # others \<Longrightarrow> find P xs = Some t"
  by (induction xs) (auto split: if_splits)

lemma built_entry_first:
  assumes b: "build_indexes targets ([], []) = Inr idx"
    and e: "(key, t # others) \<in> set (fst idx)"
  shows "find (\<lambda>d. desc_index_key d = Some key) targets = Some t"
proof -
  from build_indexes_desc [OF b, of key]
  have f: "entries (fst idx) key = filter (\<lambda>d. desc_index_key d = Some key) targets"
    and d: "distinct (map fst (fst idx))"
    by (simp_all add: entries_def)
  from d e have "map_of (fst idx) key = Some (t # others)" by simp
  with f have "filter (\<lambda>d. desc_index_key d = Some key) targets = t # others"
    by (simp add: entries_def)
  then show ?thesis by (rule filter_head_find)
qed

lemma match_by_desc_entry:
  assumes "match_by_desc lookup_by_desc mfr tname hpower = Inr t" and "truthy t"
  shows "\<exists>key others. (key, t # others) \<in> set lookup_by_desc"
proof (cases "\<exists>others. map_of lookup_by_desc (desc_key mfr tname) = Some (t # others)")
  case True
  then show ?thesis by (auto dest: map_of_SomeD)
next
  case False
  with assms have "scan_by_desc lookup_by_desc (py_str mfr @ ''_'') tname hpower = Inr (Some t)"
    by (auto simp: match_by_desc_def and_then_Inr
        split: if_splits option.splits list.splits)
  from scan_by_desc_accepts [OF this] show ?thesis by blast
qed

lemma scan_by_desc_heads:
  "scan_by_desc (map (\<lambda>e. (fst e, take (Suc 0) (snd e))) idx) key_prefix tname hpower =
   scan_by_desc idx key_prefix tname hpower"
proof (induction idx)
  case Nil
  show ?case by simp
next
  case (Cons e rest)
  note IH = Cons.IH
  obtain k ts where e: "e = (k, ts)" by (cases e)
  show ?case
  proof (cases ts)
    case Nil
    with e show ?thesis by (simp add: IH)
  next
    case (Cons first others)
    with e show ?thesis by (simp add: IH cong: if_cong)
  qed
qed

lemma map_of_heads:
  "map_of (map (\<lambda>e. (fst e, take (Suc 0) (snd e))) idx) k = map_option (take (Suc 0)) (map_of idx k)"
  by (induction idx) auto

text \<open>
  Claim C9. The description tier only ever takes the first detail stored under an index
  key: the detail it returns is the first detail of the input, in input order, that the
  index-building loop stores under its key, and the result of the tier does not change
  when every index entry is cut down to its first detail.
\<close>

theorem description_tier_first_detail_only:
  "(build_indexes targets ([], []) = Inr idx \<and>
    match_by_desc (fst idx) mfr tname hpower = Inr t \<and> truthy t \<longrightarrow>
      (\<exists>key. find (\<lambda>d. desc_index_key d = Some key) targets = Some t)) \<and>
   match_by_desc (map (\<lambda>e. (fst e, take (Suc 0) (snd e))) lookup_by_desc) mfr tname hpower =
     match_by_desc lookup_by_desc mfr tname hpower"
proof (intro conjI impI)
  assume a: "build_indexes targets ([], []) = Inr idx \<and>
    match_by_desc (fst idx) mfr tname hpower = Inr t \<and> truthy t"
  then obtain key others where "(key, t # others) \<in> set (fst idx)"
    using match_by_desc_entry by blast
  with a have "find (\<lambda>d. desc_index_key d = Some key) targets = Some t"
    using built_entry_first by blast
  then show "\<exists>key. find (\<lambda>d. desc_index_key d = Some key) targets = Some t" ..
next
  show "match_by_desc (map (\<lambda>e. (fst e, take (Suc 0) (snd e))) lookup_by_desc) mfr tname hpower =
     match_by_desc lookup_by_desc mfr tname hpower"
    by (cases "map_of lookup_by_desc (desc_key mfr tname)")
       (auto simp: match_by_desc_def map_of_heads scan_by_desc_heads split: list.splits)
qed

lemma example_weak_index:
  "build_indexes [detail_weak, detail_long] ([], []) =
   Inr ([(''7_Panda 1.2 Dynamic'', [detail_weak, detail_long])], [])"
  by (simp add: detail_weak_def detail_long_def index_target_def py_strip_def strip_def
      is_space_def dict_get_def dict_append_def desc_key_def str_int_def str_nat.simps Let_def)

lemma example_weak_matches:
  "match_by_desc [(''7_Panda 1.2 Dynamic'', [detail_weak, detail_long])] (JInt 7)
     ''Panda 1.2'' ''60'' = Inr detail_weak"
  "match_by_desc [(''7_Panda 1.2 Dynamic'', [detail_weak, detail_long])] (JInt 7)
     ''Panda 1.2'' ''69'' = Inr (JDict [])"
  "match_by_desc [(''7_Panda 1.2 Dynamic'', [detail_long])] (JInt 7)
     ''Panda 1.2'' ''69'' = Inr detail_long"
  by (simp_all add: detail_weak_def detail_long_def match_by_desc_def desc_key_def
      startswith_def desc_matches_def str_int_def str_nat.simps)

theorem description_tier_first_detail_only_witness:
  "(\<exists>key. find (\<lambda>d. desc_index_key d = Some key) [detail_weak, detail_long] = Some detail_weak) \<and>
   match_by_desc [(''7_Panda 1.2 Dynamic'', [detail_weak, detail_long])] (JInt 7)
     ''Panda 1.2'' ''60'' = Inr detail_weak \<and>
   match_by_desc [(''7_Panda 1.2 Dynamic'', [detail_weak, detail_long])] (JInt 7)
     ''Panda 1.2'' ''69'' = Inr (JDict []) \<and>
   match_by_desc [(''7_Panda 1.2 Dynamic'', [detail_long])] (JInt 7)
     ''Panda 1.2'' ''69'' = Inr detail_long"
proof -
  have "truthy detail_weak" by (simp add: detail_weak_def)
  with description_tier_first_detail_only
      [where targets = "[detail_weak, detail_long]"
         and idx = "([(''7_Panda 1.2 Dynamic'', [detail_weak, detail_long])], [])"
         and mfr = "JInt 7" and tname = "''Panda 1.2''" and hpower = "''60''"
         and t = detail_weak]
    example_weak_index example_weak_matches
  show ?thesis by simp
qed

subsection \<open>The reference accumulator\<close>

lemma ean_refs_append [simp]: "ean_refs aid (xs @ ys) = ean_refs aid xs @ ean_refs aid ys"
  by (simp add: ean_refs_def)

lemma ean_refs_Nil [simp]: "ean_refs aid [] = []"
  by (simp add: ean_refs_def)

lemma hkey_EAN: "hkey v = JStr ''EAN'' \<longleftrightarrow> v = JStr ''EAN''"
  by (cases v) auto

lemma initial_refs_no_ean:
  "initial_refs aid refs = Inr existing \<Longrightarrow> ean_refs aid refs = [] \<Longrightarrow> no_ean_keys existing"
proof (induction refs arbitrary: existing)
  case Nil
  then show ?case by (simp add: no_ean_keys_def)
next
  case (Cons r rest)
  show ?case
  proof (cases "ref_article_id r = aid")
    case False
    with Cons show ?thesis by (simp add: ean_refs_def)
  next
    case True
    with Cons.prems obtain s where s: "initial_refs aid rest = Inr s"
      and e: "existing = insert (map hkey [ref_type r, number r, ref_mfr_name r]) s"
      by (auto simp: and_then_Inr split: if_splits)
    from Cons.prems(2) True have "ref_type r \<noteq> JStr ''EAN''" and "ean_refs aid rest = []"
      by (auto simp: ean_refs_def split: if_splits)
    with Cons.IH [OF s] e show ?thesis by (simp add: no_ean_keys_def hkey_EAN)
  qed
qed

lemma add_trade_numbers_effect:
  "\<exists>new. fst (add_trade_numbers aid xs acc) = fst acc @ new \<and> ean_refs aid new = [] \<and>
     snd (snd (add_trade_numbers aid xs acc)) = snd (snd acc) \<and>
     (no_ean_keys (fst (snd acc)) \<longrightarrow> no_ean_keys (fst (snd (add_trade_numbers aid xs acc))))"
proof (induction xs arbitrary: acc)
  case Nil
  show ?case by simp
next
  case (Cons x xs)
  show ?case
  proof (cases "strip (py_str x) \<noteq> [] \<and>
         [JStr ''TRADE'', JStr (strip (py_str x)), JStr []] \<notin> fst (snd acc)")
    case False
    with Cons [of acc] show ?thesis by auto
  next
    case True
    let ?r = "\<lparr>ref_article_id = aid, ref_type = JStr ''TRADE'',
                number = JStr (strip (py_str x)), ref_mfr_name = JStr []\<rparr>"
    let ?acc = "(fst acc @ [?r],
                 insert [JStr ''TRADE'', JStr (strip (py_str x)), JStr []] (fst (snd acc)),
                 snd (snd acc))"
    from Cons [of ?acc] obtain new where
      n: "fst (add_trade_numbers aid xs ?acc) = fst ?acc @ new" "ean_refs aid new = []"
         "snd (snd (add_trade_numbers aid xs ?acc)) = snd (snd ?acc)"
         "no_ean_keys (fst (snd ?acc)) \<longrightarrow> no_ean_keys (fst (snd (add_trade_numbers aid xs ?acc)))"
      by blast
    have e: "add_trade_numbers aid (x # xs) acc = add_trade_numbers aid xs ?acc"
      using True by simp
    have "fst (add_trade_numbers aid (x # xs) acc) = fst acc @ (?r # new)"
      using n(1) e by simp
    moreover have "ean_refs aid (?r # new) = []"
      using n(2) by (simp add: ean_refs_def)
    moreover have "no_ean_keys (fst (snd acc)) \<longrightarrow>
        no_ean_keys (fst (snd (add_trade_numbers aid (x # xs) acc)))"
      using n(4) e by (simp add: no_ean_keys_def)
    ultimately show ?thesis using n(3) e by (intro exI [of _ "?r # new"]) simp
  qed
qed

lemma add_named_numbers_effect:
  "add_named_numbers aid rtype xs acc = Inr acc' \<Longrightarrow> rtype \<noteq> ''EAN'' \<Longrightarrow>
   \<exists>new. fst acc' = fst acc @ new \<and> ean_refs aid new = [] \<and>
     snd (snd acc') = snd (snd acc) \<and>
     (no_ean_keys (fst (snd acc)) \<longrightarrow> no_ean_keys (fst (snd acc')))"
proof (induction xs arbitrary: acc)
  case Nil
  then show ?case by simp
next
  case (Cons x xs)
  let ?k = "map hkey [JStr rtype, fst (named_number x), snd (named_number x)]"
  let ?r = "\<lparr>ref_article_id = aid, ref_type = JStr rtype, number = fst (named_number x),
              ref_mfr_name = snd (named_number x)\<rparr>"
  let ?acc = "(fst acc @ [?r], insert ?k (fst (snd acc)), snd (snd acc))"
  show ?case
  proof (cases "truthy (fst (named_number x)) \<and> ?k \<notin> fst (snd acc)")
    case False
    with Cons.prems have "add_named_numbers aid rtype xs acc = Inr acc'"
      by (auto split: if_splits)
    from Cons.IH [OF this Cons.prems(2)] show ?thesis .
  next
    case True
    with Cons.prems have "add_named_numbers aid rtype xs ?acc = Inr acc'"
      by (auto split: if_splits)
    from Cons.IH [OF this Cons.prems(2)] obtain new where
      n: "fst acc' = fst ?acc @ new" "ean_refs aid new = []"
         "snd (snd acc') = snd (snd ?acc)"
         "no_ean_keys (fst (snd ?acc)) \<longrightarrow> no_ean_keys (fst (snd acc'))"
      by blast
    have "fst acc' = fst acc @ (?r # new)" using n(1) by simp
    moreover have "ean_refs aid (?r # new) = []"
      using n(2) Cons.prems(2) by (simp add: ean_refs_def)
    moreover have "no_ean_keys (fst (snd acc)) \<longrightarrow> no_ean_keys (fst (snd acc'))"
      using n(4) Cons.prems(2) by (simp add: no_ean_keys_def)
    ultimately show ?thesis using n(3) by (intro exI [of _ "?r # new"]) simp
  qed
qed

lemma add_first_ean_effect:
  "(add_first_ean aid gs acc = acc) \<or>
   (\<exists>g. add_first_ean aid gs acc =
      (fst acc @ [ean_row aid g], insert [JStr ''EAN'', JStr g, JStr []] (fst (snd acc)), True))"
  by (induction gs) (auto simp: ean_row_def)

lemma add_first_ean_first:
  "no_ean_keys (fst (snd acc)) \<Longrightarrow>
   add_first_ean aid gs acc =
     (case filter (\<lambda>g. g \<noteq> []) (map (\<lambda>gtin. strip (py_str gtin)) gs) of
        [] \<Rightarrow> acc
      | g # others \<Rightarrow>
          (fst acc @ [ean_row aid g], insert [JStr ''EAN'', JStr g, JStr []] (fst (snd acc)),
           True))"
  by (induction gs) (auto simp: ean_row_def no_ean_keys_def)

lemma ean_refs_ean_row [simp]: "ean_refs aid [ean_row aid g] = [ean_row aid g]"
  by (simp add: ean_refs_def ean_row_def)

text \<open>What the sections after the EAN section do to the state.\<close>

lemma later_sections_effect:
  assumes "and_then (section_items kvs ''tradeNumbers'') (\<lambda>trade.
            and_then (section_items kvs ''oemNumbers'') (\<lambda>oem.
            and_then (add_named_numbers aid ''OE'' oem (add_trade_numbers aid trade a1)) (\<lambda>a3.
            and_then (section_items kvs ''comparableNumbers'') (\<lambda>comp.
            and_then (add_named_numbers aid ''COMPARABLE'' comp a3) (\<lambda>a4.
            and_then (section_items kvs ''replacesArticles'') (\<lambda>repl.
            and_then (add_named_numbers aid ''REPLACEMENT'' repl a4) (\<lambda>a5.
            and_then (section_items kvs ''replacedByArticles'') (\<lambda>replaced.
              add_named_numbers aid ''REPLACED'' replaced a5)))))))) = Inr acc'"
  shows "\<exists>new. fst acc' = fst a1 @ new \<and> ean_refs aid new = [] \<and>
     snd (snd acc') = snd (snd a1) \<and>
     (no_ean_keys (fst (snd a1)) \<longrightarrow> no_ean_keys (fst (snd acc')))"
proof -
  from assms obtain trade oem a3 comp a4 repl a5 replaced where
    s3: "add_named_numbers aid ''OE'' oem (add_trade_numbers aid trade a1) = Inr a3"
    and s4: "add_named_numbers aid ''COMPARABLE'' comp a3 = Inr a4"
    and s5: "add_named_numbers aid ''REPLACEMENT'' repl a4 = Inr a5"
    and s6: "add_named_numbers aid ''REPLACED'' replaced a5 = Inr acc'"
    by (auto simp: and_then_Inr)
  from add_trade_numbers_effect [of aid trade a1] obtain n2 where
    n2: "fst (add_trade_numbers aid trade a1) = fst a1 @ n2" "ean_refs aid n2 = []"
        "snd (snd (add_trade_numbers aid trade a1)) = snd (snd a1)"
        "no_ean_keys (fst (snd a1)) \<longrightarrow> no_ean_keys (fst (snd (add_trade_numbers aid trade a1)))"
    by blast
  from add_named_numbers_effect [OF s3] obtain n3 where
    n3: "fst a3 = fst (add_trade_numbers aid trade a1) @ n3" "ean_refs aid n3 = []"
        "snd (snd a3) = snd (snd (add_trade_numbers aid trade a1))"
        "no_ean_keys (fst (snd (add_trade_numbers aid trade a1))) \<longrightarrow> no_ean_keys (fst (snd a3))"
    by auto
  from add_named_numbers_effect [OF s4] obtain n4 where
    n4: "fst a4 = fst a3 @ n4" "ean_refs aid n4 = []" "snd (snd a4) = snd (snd a3)"
        "no_ean_keys (fst (snd a3)) \<longrightarrow> no_ean_keys (fst (snd a4))"
    by auto
  from add_named_numbers_effect [OF s5] obtain n5 where
    n5: "fst a5 = fst a4 @ n5" "ean_refs aid n5 = []" "snd (snd a5) = snd (snd a4)"
        "no_ean_keys (fst (snd a4)) \<longrightarrow> no_ean_keys (fst (snd a5))"
    by auto
  from add_named_numbers_effect [OF s6] obtain n6 where
    n6: "fst acc' = fst a5 @ n6" "ean_refs aid n6 = []" "snd (snd acc') = snd (snd a5)"
        "no_ean_keys (fst (snd a5)) \<longrightarrow> no_ean_keys (fst (snd acc'))"
    by auto
  have "fst acc' = fst a1 @ (n2 @ n3 @ n4 @ n5 @ n6)"
    using n2(1) n3(1) n4(1) n5(1) n6(1) by simp
  moreover have "ean_refs aid (n2 @ n3 @ n4 @ n5 @ n6) = []"
    using n2(2) n3(2) n4(2) n5(2) n6(2) by simp
  moreover have "snd (snd acc') = snd (snd a1)"
    using n2(3) n3(3) n4(3) n5(3) n6(3) by simp
  moreover have "no_ean_keys (fst (snd a1)) \<longrightarrow> no_ean_keys (fst (snd acc'))"
    using n2(4) n3(4) n4(4) n5(4) n6(4) by blast
  ultimately show ?thesis by blast
qed

lemma ean_step_trans:
  "ean_step aid acc mid n1 \<Longrightarrow> ean_step aid mid acc' n2 \<Longrightarrow> ean_step aid acc acc' (n1 @ n2)"
  by (auto simp: ean_step_def)

lemma extract_article_effect:
  assumes "extract_article aid supplier artno article acc = Inr acc'"
  shows "\<exists>new. ean_step aid acc acc' new"
proof -
  from assms obtain kvs where a: "article = JDict kvs"
    by (cases article) (simp_all add: extract_article_def)
  show ?thesis
  proof (cases "article_passes supplier artno kvs")
    case False
    with assms a have "acc' = acc" by (simp add: extract_article_def)
    then have "ean_step aid acc acc' []" by (simp add: ean_step_def)
    then show ?thesis ..
  next
    case True
    with assms a obtain a1 where
      a1: "(if snd (snd acc) then Inr acc
            else and_then (section_items kvs ''gtins'')
                   (\<lambda>gtins. Inr (add_first_ean aid gtins acc))) = Inr a1"
      and rest: "and_then (section_items kvs ''tradeNumbers'') (\<lambda>trade.
            and_then (section_items kvs ''oemNumbers'') (\<lambda>oem.
            and_then (add_named_numbers aid ''OE'' oem (add_trade_numbers aid trade a1)) (\<lambda>a3.
            and_then (section_items kvs ''comparableNumbers'') (\<lambda>comp.
            and_then (add_named_numbers aid ''COMPARABLE'' comp a3) (\<lambda>a4.
            and_then (section_items kvs ''replacesArticles'') (\<lambda>repl.
            and_then (add_named_numbers aid ''REPLACEMENT'' repl a4) (\<lambda>a5.
            and_then (section_items kvs ''replacedByArticles'') (\<lambda>replaced.
              add_named_numbers aid ''REPLACED'' replaced a5)))))))) = Inr acc'"
      by (auto simp: extract_article_def and_then_Inr)
    from later_sections_effect [OF rest] obtain n2 where
      n2: "fst acc' = fst a1 @ n2" "ean_refs aid n2 = []" "snd (snd acc') = snd (snd a1)"
      by blast
    then have s2: "ean_step aid a1 acc' n2" by (simp add: ean_step_def)
    have "\<exists>n1. ean_step aid acc a1 n1"
    proof (cases "snd (snd acc)")
      case True
      with a1 have "a1 = acc" by simp
      then have "ean_step aid acc a1 []" by (simp add: ean_step_def)
      then show ?thesis ..
    next
      case False
      with a1 obtain gtins where "a1 = add_first_ean aid gtins acc"
        by (auto simp: and_then_Inr)
      with add_first_ean_effect [of aid gtins acc]
      consider "a1 = acc"
        | g where "a1 = (fst acc @ [ean_row aid g],
                         insert [JStr ''EAN'', JStr g, JStr []] (fst (snd acc)), True)"
        by auto
      then show ?thesis
      proof cases
        case 1
        then have "ean_step aid acc a1 []" by (simp add: ean_step_def)
        then show ?thesis ..
      next
        case 2
        with False have "ean_step aid acc a1 [ean_row aid g]" by (auto simp: ean_step_def)
        then show ?thesis ..
      qed
    qed
    then obtain n1 where "ean_step aid acc a1 n1" ..
    from ean_step_trans [OF this s2] show ?thesis ..
  qed
qed

lemma extract_articles_effect:
  "extract_articles aid supplier artno items acc = Inr acc' \<Longrightarrow> \<exists>new. ean_step aid acc acc' new"
proof (induction items arbitrary: acc)
  case Nil
  then have "ean_step aid acc acc' []" by (simp add: ean_step_def)
  then show ?case ..
next
  case (Cons article rest)
  from Cons.prems obtain mid where m: "extract_article aid supplier artno article acc = Inr mid"
    and r: "extract_articles aid supplier artno rest mid = Inr acc'"
    by (auto simp: and_then_Inr)
  from extract_article_effect [OF m] obtain n1 where n1: "ean_step aid acc mid n1" ..
  from Cons.IH [OF r] obtain n2 where n2: "ean_step aid mid acc' n2" ..
  from ean_step_trans [OF n1 n2] show ?case ..
qed

lemma extract_article_first:
  assumes "extract_article aid supplier artno (JDict kvs) acc = Inr acc'"
    and "\<not> snd (snd acc)" and "no_ean_keys (fst (snd acc))"
  shows "\<exists>new. fst acc' = fst acc @ new \<and>
     ean_refs aid new =
       first_candidate_row aid (if article_passes supplier artno kvs then gtin_texts kvs else []) \<and>
     snd (snd acc') = ((if article_passes supplier artno kvs then gtin_texts kvs else []) \<noteq> []) \<and>
     ((if article_passes supplier artno kvs then gtin_texts kvs else []) = [] \<longrightarrow>
        no_ean_keys (fst (snd acc')))"
proof (cases "article_passes supplier artno kvs")
  case False
  with assms have "acc' = acc" by (simp add: extract_article_def)
  with False assms(2,3) show ?thesis by (simp add: first_candidate_row_def)
next
  case True
  with assms(1,2) obtain gtins where
    g: "section_items kvs ''gtins'' = Inr gtins"
    and rest: "and_then (section_items kvs ''tradeNumbers'') (\<lambda>trade.
            and_then (section_items kvs ''oemNumbers'') (\<lambda>oem.
            and_then (add_named_numbers aid ''OE'' oem
                        (add_trade_numbers aid trade (add_first_ean aid gtins acc))) (\<lambda>a3.
            and_then (section_items kvs ''comparableNumbers'') (\<lambda>comp.
            and_then (add_named_numbers aid ''COMPARABLE'' comp a3) (\<lambda>a4.
            and_then (section_items kvs ''replacesArticles'') (\<lambda>repl.
            and_then (add_named_numbers aid ''REPLACEMENT'' repl a4) (\<lambda>a5.
            and_then (section_items kvs ''replacedByArticles'') (\<lambda>replaced.
              add_named_numbers aid ''REPLACED'' replaced a5)))))))) = Inr acc'"
    by (auto simp: extract_article_def and_then_Inr)
  let ?a1 = "add_first_ean aid gtins acc"
  from later_sections_effect [OF rest] obtain n2 where
    n2: "fst acc' = fst ?a1 @ n2" "ean_refs aid n2 = []" "snd (snd acc') = snd (snd ?a1)"
        "no_ean_keys (fst (snd ?a1)) \<longrightarrow> no_ean_keys (fst (snd acc'))"
    by blast
  have texts: "gtin_texts kvs = filter (\<lambda>g. g \<noteq> []) (map (\<lambda>gtin. strip (py_str gtin)) gtins)"
    by (simp add: gtin_texts_def g)
  show ?thesis
  proof (cases "gtin_texts kvs")
    case Nil
    with texts have f: "filter (\<lambda>g. g \<noteq> []) (map (\<lambda>gtin. strip (py_str gtin)) gtins) = []"
      by simp
    have "?a1 = acc"
      using add_first_ean_first [OF assms(3), of aid gtins] unfolding f by simp
    with n2 Nil True assms(2,3) show ?thesis by (simp add: first_candidate_row_def)
  next
    case (Cons c others)
    with texts
    have f: "filter (\<lambda>g. g \<noteq> []) (map (\<lambda>gtin. strip (py_str gtin)) gtins) = c # others"
      by simp
    have "?a1 = (fst acc @ [ean_row aid c],
                 insert [JStr ''EAN'', JStr c, JStr []] (fst (snd acc)), True)"
      using add_first_ean_first [OF assms(3), of aid gtins] unfolding f by simp
    with n2 have "fst acc' = fst acc @ (ean_row aid c # n2)"
      and "ean_refs aid (ean_row aid c # n2) = [ean_row aid c]" and "snd (snd acc')"
      using ean_refs_append [of aid "[ean_row aid c]" n2] by simp_all
    with Cons True show ?thesis by (auto simp: first_candidate_row_def)
  qed
qed

lemma extract_articles_first:
  "extract_articles aid supplier artno items acc = Inr acc' \<Longrightarrow> \<not> snd (snd acc) \<Longrightarrow>
   no_ean_keys (fst (snd acc)) \<Longrightarrow>
   \<exists>new. fst acc' = fst acc @ new \<and>
     ean_refs aid new = first_candidate_row aid (ean_candidates supplier artno items)"
proof (induction items arbitrary: acc)
  case Nil
  then show ?case by (simp add: first_candidate_row_def)
next
  case (Cons article rest)
  from Cons.prems(1) obtain mid where m: "extract_article aid supplier artno article acc = Inr mid"
    and r: "extract_articles aid supplier artno rest mid = Inr acc'"
    by (auto simp: and_then_Inr)
  from m obtain kvs where a: "article = JDict kvs"
    by (cases article) (simp_all add: extract_article_def)
  let ?c = "if article_passes supplier artno kvs then gtin_texts kvs else []"
  from extract_article_first [OF m [unfolded a] Cons.prems(2,3)] obtain n1 where
    n1: "fst mid = fst acc @ n1" "ean_refs aid n1 = first_candidate_row aid ?c"
        "snd (snd mid) = (?c \<noteq> [])" "?c = [] \<longrightarrow> no_ean_keys (fst (snd mid))"
    by blast
  have cands: "ean_candidates supplier artno (article # rest) = ?c @ ean_candidates supplier artno rest"
    by (simp add: a)
  show ?case
  proof (cases "?c = []")
    case True
    with n1 have "\<not> snd (snd mid)" "no_ean_keys (fst (snd mid))" by simp_all
    from Cons.IH [OF r this] obtain n2 where
      "fst acc' = fst mid @ n2"
      "ean_refs aid n2 = first_candidate_row aid (ean_candidates supplier artno rest)"
      by blast
    with n1 True cands have "fst acc' = fst acc @ (n1 @ n2) \<and>
        ean_refs aid (n1 @ n2) = first_candidate_row aid (ean_candidates supplier artno (article # rest))"
      by (simp add: first_candidate_row_def)
    then show ?thesis by blast
  next
    case False
    with n1 have up: "snd (snd mid)" by simp
    from extract_articles_effect [OF r] obtain n2 where "ean_step aid mid acc' n2" ..
    with up have "fst acc' = fst mid @ n2" "ean_refs aid n2 = []"
      by (auto simp: ean_step_def)
    moreover from False cands
    have "first_candidate_row aid (ean_candidates supplier artno (article # rest)) =
          first_candidate_row aid ?c"
      by (cases ?c) (simp_all add: first_candidate_row_def)
    ultimately have "fst acc' = fst acc @ (n1 @ n2) \<and>
        ean_refs aid (n1 @ n2) = first_candidate_row aid (ean_candidates supplier artno (article # rest))"
      using n1 by simp
    then show ?thesis by blast
  qed
qed

lemma extract_all_new_rows:
  assumes "extract_all_reference_numbers aid resp supplier artno refs = Inr refs'"
  shows "\<exists>new. refs' = refs @ new \<and> length (ean_refs aid new) \<le> 1"
proof -
  consider (same) "refs' = refs"
    | (loop) items existing acc where
        "extract_articles aid supplier artno items (refs, existing, False) = Inr acc"
        "refs' = fst acc"
    using assms
    by (auto simp: extract_all_reference_numbers_def and_then_Inr split: if_splits)
  then show ?thesis
  proof cases
    case same
    then have "refs' = refs @ [] \<and> length (ean_refs aid []) \<le> 1" by simp
    then show ?thesis by blast
  next
    case loop
    from extract_articles_effect [OF loop(1)] obtain new where
      "ean_step aid (refs, existing, False) acc new" ..
    with loop(2) have "refs' = refs @ new \<and> length (ean_refs aid new) \<le> 1"
      by (auto simp: ean_step_def)
    then show ?thesis by blast
  qed
qed

lemma extract_all_first_candidate:
  assumes run: "extract_all_reference_numbers aid resp supplier artno refs = Inr refs'"
    and listed: "py_get resp ''articles'' (JList []) = Inr (JList items)"
    and none: "ean_refs aid refs = []"
  shows "ean_refs aid refs' = first_candidate_row aid (ean_candidates supplier artno items)"
proof (cases "truthy resp \<and> py_contains ''articles'' resp = Inr True \<and> items \<noteq> []")
  case False
  from listed obtain kvs where r: "resp = JDict kvs" by (cases resp) simp_all
  from False r listed have "items = [] \<or> refs' = refs"
    using run by (auto simp: extract_all_reference_numbers_def split: if_splits option.splits)
  moreover have "items = [] \<Longrightarrow> refs' = refs"
    using run listed r
    by (auto simp: extract_all_reference_numbers_def and_then_Inr split: if_splits)
  moreover have "refs' = refs \<Longrightarrow> items \<noteq> [] \<Longrightarrow> False"
    using False r listed by (auto split: option.splits)
  ultimately have "refs' = refs" "items = []" by auto
  with none show ?thesis by (simp add: first_candidate_row_def)
next
  case True
  with run listed obtain existing acc where
    e: "initial_refs aid refs = Inr existing"
    and l: "extract_articles aid supplier artno items (refs, existing, False) = Inr acc"
    and f: "refs' = fst acc"
    by (auto simp: extract_all_reference_numbers_def and_then_Inr)
  from initial_refs_no_ean [OF e none] have "no_ean_keys (fst (snd (refs, existing, False)))"
    by simp
  from extract_articles_first [OF l _ this] obtain new where
    "fst acc = refs @ new"
    "ean_refs aid new = first_candidate_row aid (ean_candidates supplier artno items)"
    by auto
  with f none show ?thesis by simp
qed

text \<open>
  What the flag \<open>ean_added\<close> achieves. One call of \<open>extract_all_reference_numbers\<close>
  appends rows to the accumulated list and among them at most one row of type EAN for the
  parent; started on a list without an EAN of the parent, the call leaves at most one, the
  first candidate in input order (the first text that is not blank among the \<open>gtins\<close>
  of the articles that pass the filter on manufacturer and article number).
\<close>

lemma one_call_appends_at_most_one_ean:
  "(extract_all_reference_numbers aid resp supplier artno refs = Inr refs' \<longrightarrow>
      (\<exists>new. refs' = refs @ new \<and> length (ean_refs aid new) \<le> 1 \<and>
         (ean_refs aid refs = [] \<longrightarrow> length (ean_refs aid refs') \<le> 1))) \<and>
   (extract_all_reference_numbers aid resp supplier artno refs = Inr refs' \<and>
    py_get resp ''articles'' (JList []) = Inr (JList items) \<and> ean_refs aid refs = [] \<longrightarrow>
      ean_refs aid refs' = first_candidate_row aid (ean_candidates supplier artno items))"
proof (intro conjI impI)
  assume "extract_all_reference_numbers aid resp supplier artno refs = Inr refs'"
  from extract_all_new_rows [OF this] obtain new where
    n: "refs' = refs @ new" "length (ean_refs aid new) \<le> 1" by blast
  then have "ean_refs aid refs = [] \<longrightarrow> length (ean_refs aid refs') \<le> 1" by simp
  with n show "\<exists>new. refs' = refs @ new \<and> length (ean_refs aid new) \<le> 1 \<and>
         (ean_refs aid refs = [] \<longrightarrow> length (ean_refs aid refs') \<le> 1)"
    by blast
next
  assume "extract_all_reference_numbers aid resp supplier artno refs = Inr refs' \<and>
    py_get resp ''articles'' (JList []) = Inr (JList items) \<and> ean_refs aid refs = []"
  then show "ean_refs aid refs' = first_candidate_row aid (ean_candidates supplier artno items)"
    using extract_all_first_candidate by blast
qed

lemma strip_digits [simp]:
  "strip ''4057795419360'' = ''4057795419360''" "strip ''4057795419377'' = ''4057795419377''"
  "strip ''T-100'' = ''T-100''"
  by (simp_all add: strip_def is_space_def)

lemma example_first_call:
  "extract_all_reference_numbers 4711 first_reference_response (JInt 355) (JStr ''5.15025'') [] =
   Inr [ean_row 4711 ''4057795419360'',
        \<lparr>ref_article_id = 4711, ref_type = JStr ''TRADE'', number = JStr ''T-100'',
          ref_mfr_name = JStr []\<rparr>]"
  by (simp add: extract_all_reference_numbers_def first_reference_response_def
      extract_article_def article_passes_def dict_get_def section_items_def ean_row_def)

lemma example_second_call:
  "extract_all_reference_numbers 4711 second_reference_response (JInt 355) (JStr ''5.15025'')
     [ean_row 4711 ''4057795419360'',
      \<lparr>ref_article_id = 4711, ref_type = JStr ''TRADE'', number = JStr ''T-100'',
        ref_mfr_name = JStr []\<rparr>] =
   Inr [ean_row 4711 ''4057795419360'',
        \<lparr>ref_article_id = 4711, ref_type = JStr ''TRADE'', number = JStr ''T-100'',
          ref_mfr_name = JStr []\<rparr>,
        ean_row 4711 ''4057795419377'']"
  by (simp add: extract_all_reference_numbers_def second_reference_response_def
      extract_article_def article_passes_def dict_get_def section_items_def ean_row_def)

lemma one_call_appends_at_most_one_ean_example:
  "extract_all_reference_numbers 4711 first_reference_response (JInt 355) (JStr ''5.15025'') [] =
     Inr [ean_row 4711 ''4057795419360'',
          \<lparr>ref_article_id = 4711, ref_type = JStr ''TRADE'', number = JStr ''T-100'',
            ref_mfr_name = JStr []\<rparr>] \<and>
   ean_candidates (JInt 355) (JStr ''5.15025'')
     [JDict [(''dataSupplierId'', JInt 355), (''articleNumber'', JStr ''5.15025''),
             (''gtins'', JList [JStr ''4057795419360'', JStr ''4057795419377'']),
             (''tradeNumbers'', JList [JStr ''T-100''])]] =
     [''4057795419360'', ''4057795419377''] \<and>
   ean_refs 4711
     [ean_row 4711 ''4057795419360'',
      \<lparr>ref_article_id = 4711, ref_type = JStr ''TRADE'', number = JStr ''T-100'',
        ref_mfr_name = JStr []\<rparr>] = [ean_row 4711 ''4057795419360'']"
  using one_call_appends_at_most_one_ean
      [where aid = 4711 and resp = first_reference_response and supplier = "JInt 355"
         and artno = "JStr ''5.15025''" and refs = "[]"
         and refs' = "[ean_row 4711 ''4057795419360'',
            \<lparr>ref_article_id = 4711, ref_type = JStr ''TRADE'', number = JStr ''T-100'',
              ref_mfr_name = JStr []\<rparr>]"
         and items = "[JDict [(''dataSupplierId'', JInt 355),
             (''articleNumber'', JStr ''5.15025''),
             (''gtins'', JList [JStr ''4057795419360'', JStr ''4057795419377'']),
             (''tradeNumbers'', JList [JStr ''T-100''])]]"]
    example_first_call
  by (simp add: first_reference_response_def article_passes_def dict_get_def gtin_texts_def
      section_items_def first_candidate_row_def ean_refs_def ean_row_def)

text \<open>
  Claim C2. The accumulated list should hold at most one row of type EAN for a parent
  over every sequence of calls, the first candidate in input order. The function is
  documented to take only the first EAN of the matching article, but the flag starts at
  \<open>False\<close> on every call although the keys already recorded for the parent are read back
  from the list, and a candidate that is already recorded is passed over without ending
  the loop. So a call on a list that holds the first EAN of the parent, as the first call
  leaves it, and on a response that presents that EAN and a second one, appends the
  second one: the list then holds two EAN rows for the parent.
\<close>

theorem ean_second_call_adds_second_ean:
  "extract_all_reference_numbers 4711 first_reference_response (JInt 355) (JStr ''5.15025'') [] =
     Inr [ean_row 4711 ''4057795419360'',
          \<lparr>ref_article_id = 4711, ref_type = JStr ''TRADE'', number = JStr ''T-100'',
            ref_mfr_name = JStr []\<rparr>] \<and>
   extract_all_reference_numbers 4711 second_reference_response (JInt 355) (JStr ''5.15025'')
     [ean_row 4711 ''4057795419360'',
      \<lparr>ref_article_id = 4711, ref_type = JStr ''TRADE'', number = JStr ''T-100'',
        ref_mfr_name = JStr []\<rparr>] =
     Inr [ean_row 4711 ''4057795419360'',
          \<lparr>ref_article_id = 4711, ref_type = JStr ''TRADE'', number = JStr ''T-100'',
            ref_mfr_name = JStr []\<rparr>,
          ean_row 4711 ''4057795419377''] \<and>
   ean_refs 4711
     [ean_row 4711 ''4057795419360'',
      \<lparr>ref_article_id = 4711, ref_type = JStr ''TRADE'', number = JStr ''T-100'',
        ref_mfr_name = JStr []\<rparr>,
      ean_row 4711 ''4057795419377''] =
     [ean_row 4711 ''4057795419360'', ean_row 4711 ''4057795419377'']"
  using example_first_call example_second_call
  by (simp add: ean_refs_def ean_row_def)

end
